theory Spec2Isabelle
  imports Main "HOL-Library.AList"
begin

section \<open>The property-binding model of \<^verbatim>\<open>tp/qt/mvc.py\<close>\<close>

text \<open>
  The module binds named UI properties to toolkit widgets. The embedding keeps the
  engine's own state (\<^verbatim>\<open>Model\<close>) in a record, the widgets it holds references to in
  a store indexed by widget identity, and the two effects that leave the engine, listener
  invocations and logged warnings, as traces in the state. Every raise of the source is
  a value of the type \<open>error\<close>.
\<close>

subsection \<open>Values and UI properties\<close>

text \<open>
  Property values are \<^verbatim>\<open>Any\<close> in the source. The engine only moves them between
  records and widgets and tests them against \<^verbatim>\<open>None\<close>.
\<close>

datatype pyval = PyNone | PyBool bool | PyInt int | PyStr string | PyType string

text \<open>
  The dataclass \<^verbatim>\<open>UiProperty\<close>. The fields \<open>value\<close>, \<open>default\<close> and \<open>type\<close> carry a
  prefix because the plain words are taken in Isabelle. \<^verbatim>\<open>save_properties\<close> writes
  facets with \<^verbatim>\<open>setattr\<close> under arbitrary names: \<open>p_attrs\<close> holds every attribute
  written that way other than \<open>value\<close>, \<open>default\<close> and \<open>type\<close>. A facet called
  \<open>name\<close> rebinds the attribute in Python; here it is kept in \<open>p_attrs\<close>, which
  \<open>getattr_prop\<close> reads first, so that \<open>p_name\<close> stays the string the record was
  built with.
\<close>

record ui_property =
  p_name :: string
  p_value :: pyval
  p_default :: pyval
  p_type :: pyval
  p_attrs :: "string \<Rightarrow> pyval option"

definition UiProperty :: "string \<Rightarrow> pyval \<Rightarrow> pyval \<Rightarrow> pyval \<Rightarrow> ui_property" where
  "UiProperty n v d t =
     \<lparr>p_name = n, p_value = v, p_default = d, p_type = t, p_attrs = Map.empty\<rparr>"

definition setattr_prop :: "string \<Rightarrow> pyval \<Rightarrow> ui_property \<Rightarrow> ui_property" where
  "setattr_prop k v p =
     (if k = ''value'' then p\<lparr>p_value := v\<rparr>
      else if k = ''default'' then p\<lparr>p_default := v\<rparr>
      else if k = ''type'' then p\<lparr>p_type := v\<rparr>
      else p\<lparr>p_attrs := (p_attrs p)(k \<mapsto> v)\<rparr>)"

definition getattr_prop :: "ui_property \<Rightarrow> string \<Rightarrow> pyval option" where
  "getattr_prop p k =
     (if k = ''value'' then Some (p_value p)
      else if k = ''default'' then Some (p_default p)
      else if k = ''type'' then Some (p_type p)
      else (case p_attrs p k of
              Some v \<Rightarrow> Some v
            | None \<Rightarrow> if k = ''name'' then Some (PyStr (p_name p)) else None))"

subsection \<open>The capability table\<close>

record ui_property_get_set =
  getter :: string
  setter :: string

record ui_property_widget_update =
  save_signal :: string
  getsets :: "ui_property_get_set list"
  skip_children :: bool

definition UiPropertyGetSet :: "string \<Rightarrow> string \<Rightarrow> ui_property_get_set" where
  "UiPropertyGetSet g s = \<lparr>getter = g, setter = s\<rparr>"

definition UiPropertyWidgetUpdate ::
  "string \<Rightarrow> ui_property_get_set list \<Rightarrow> ui_property_widget_update" where
  "UiPropertyWidgetUpdate sig gss = \<lparr>save_signal = sig, getsets = gss, skip_children = True\<rparr>"

text \<open>
  The runtime type of an object: the eighteen classes that are keys of
  \<^verbatim>\<open>SUPPORT_WIDGET_TYPES\<close>, and \<open>OtherType\<close> for any other class (a plain
  \<^verbatim>\<open>QWidget\<close>, a subclass of a listed class, an \<^verbatim>\<open>int\<close>).
\<close>

datatype widget_type =
    QCheckBox | QLineEdit | QComboBox | QProgressBar
  | BaseCheckBoxWidget | BaseComboBox | ComboBoxRegularWidget | ComboBoxSearchableWidget
  | RadioButtonGroup | SearchLineEdit | BaseLineEdit | StringLineEditWidget
  | FloatLineEditWidget | IntLineEditWidget | StringEdit | IntEdit | FloatEdit
  | BaseLabel | OtherType string

fun SUPPORT_WIDGET_TYPES :: "widget_type \<Rightarrow> ui_property_widget_update option" where
  "SUPPORT_WIDGET_TYPES QCheckBox =
     Some (UiPropertyWidgetUpdate ''toggled'' [UiPropertyGetSet ''isChecked'' ''setChecked''])"
| "SUPPORT_WIDGET_TYPES QLineEdit =
     Some (UiPropertyWidgetUpdate ''textChanged'' [UiPropertyGetSet ''text'' ''setText''])"
| "SUPPORT_WIDGET_TYPES QComboBox =
     Some (UiPropertyWidgetUpdate ''itemChanged''
       [UiPropertyGetSet ''currentIndex'' ''setCurrentIndex''])"
| "SUPPORT_WIDGET_TYPES QProgressBar =
     Some (UiPropertyWidgetUpdate ''valueChanged'' [UiPropertyGetSet ''value'' ''setValue''])"
| "SUPPORT_WIDGET_TYPES BaseCheckBoxWidget =
     Some (UiPropertyWidgetUpdate ''stateChanged''
       [UiPropertyGetSet ''isChecked'' ''setChecked''])"
| "SUPPORT_WIDGET_TYPES BaseComboBox =
     Some (UiPropertyWidgetUpdate ''currentIndexChanged''
       [UiPropertyGetSet ''currentIndex'' ''setCurrentIndex''])"
| "SUPPORT_WIDGET_TYPES ComboBoxRegularWidget =
     Some (UiPropertyWidgetUpdate ''itemChanged''
       [UiPropertyGetSet ''current_index'' ''set_index''])"
| "SUPPORT_WIDGET_TYPES ComboBoxSearchableWidget =
     Some (UiPropertyWidgetUpdate ''itemChanged''
       [UiPropertyGetSet ''current_index'' ''set_index''])"
| "SUPPORT_WIDGET_TYPES RadioButtonGroup =
     Some (UiPropertyWidgetUpdate ''toggled''
       [UiPropertyGetSet ''checked_index'' ''set_checked''])"
| "SUPPORT_WIDGET_TYPES SearchLineEdit =
     Some (UiPropertyWidgetUpdate ''textChanged'' [UiPropertyGetSet ''text'' ''setText''])"
| "SUPPORT_WIDGET_TYPES BaseLineEdit =
     Some (UiPropertyWidgetUpdate ''textChanged'' [UiPropertyGetSet ''text'' ''setText''])"
| "SUPPORT_WIDGET_TYPES StringLineEditWidget =
     Some (UiPropertyWidgetUpdate ''textChanged'' [UiPropertyGetSet ''text'' ''set_text''])"
| "SUPPORT_WIDGET_TYPES FloatLineEditWidget =
     Some (UiPropertyWidgetUpdate ''textChanged'' [UiPropertyGetSet ''value'' ''set_value''])"
| "SUPPORT_WIDGET_TYPES IntLineEditWidget =
     Some (UiPropertyWidgetUpdate ''textChanged'' [UiPropertyGetSet ''value'' ''set_value''])"
| "SUPPORT_WIDGET_TYPES StringEdit =
     Some (UiPropertyWidgetUpdate ''textChanged'' [UiPropertyGetSet ''text'' ''set_text''])"
| "SUPPORT_WIDGET_TYPES IntEdit =
     Some (UiPropertyWidgetUpdate ''textChanged'' [UiPropertyGetSet ''text'' ''set_text''])"
| "SUPPORT_WIDGET_TYPES FloatEdit =
     Some (UiPropertyWidgetUpdate ''textChanged'' [UiPropertyGetSet ''text'' ''set_text''])"
| "SUPPORT_WIDGET_TYPES BaseLabel =
     Some (UiPropertyWidgetUpdate ''textChanged'' [UiPropertyGetSet ''text'' ''setText''])"
| "SUPPORT_WIDGET_TYPES (OtherType c) = None"

subsection \<open>Widgets, errors and the engine's state\<close>

text \<open>
  A widget belongs to the toolkit. The engine sees its runtime type, the dynamic
  properties \<^verbatim>\<open>"prop"\<close> (\<open>None\<close> while unset) and \<^verbatim>\<open>"extraProperties"\<close> (\<open>Some\<close> of
  the dictionary's items when it is a dictionary), its zero-argument accessors (what each
  returns now; an accessor the widget lacks is \<open>None\<close>), whether a setter takes a value
  or raises \<^verbatim>\<open>TypeError\<close>, whether the save signal is connected to
  \<^verbatim>\<open>save_properties\<close>, and whether its signals are blocked. The setters and the
  signal that the table names for a class are taken to exist on its instances.
\<close>

record widget =
  wtype :: widget_type
  prop_tag :: "string option"
  extraProperties :: "(string \<times> string) list option"
  accessors :: "string \<Rightarrow> pyval option"
  accepts :: "string \<Rightarrow> pyval \<Rightarrow> bool"
  connected :: bool
  signals_blocked :: bool

datatype error =
    KeyError "string option"
  | AttributeError string
  | TypeError "string option" string pyval

datatype log_entry = Unsupported_widget nat "string option"

text \<open>
  The state of a \<^verbatim>\<open>Model\<close>. \<open>widgets\<close> is the registry, a list of references
  (widget identities) in insertion order, and \<open>objs\<close> is the store the references point
  into. \<open>calls\<close> records each listener invocation with its argument, \<open>warnings\<close> each
  \<^verbatim>\<open>logger.warning\<close>, both oldest first. Listeners are opaque callables, named by a
  number; a listener is taken to return normally and to leave the engine alone.
\<close>

record model =
  widgets :: "nat list"
  properties :: "string \<Rightarrow> ui_property option"
  listeners :: "string \<Rightarrow> nat list option"
  show_warnings :: bool
  block_save :: bool
  objs :: "nat \<Rightarrow> widget"
  calls :: "(nat \<times> pyval) list"
  warnings :: "log_entry list"

definition warn :: "model \<Rightarrow> nat \<Rightarrow> string option \<Rightarrow> model" where
  "warn m w nm = m\<lparr>warnings := warnings m @ [Unsupported_widget w nm]\<rparr>"

definition widget_property_name :: "model \<Rightarrow> nat \<Rightarrow> string option" where
  "widget_property_name m w = prop_tag (objs m w)"

text \<open>
  Modelled from the spec: \<^verbatim>\<open>collections.WeakRefList\<close> is not among the sources. The
  spec has it as an ordered collection of non-owning references; iterating it yields the
  widgets in insertion order and \<^verbatim>\<open>append\<close> adds at the end. The destruction of a
  widget is the toolkit's and is left out: every reference stays live.
\<close>

definition property_widgets :: "model \<Rightarrow> nat list" where
  "property_widgets m = widgets m"

text \<open>
  Modelled from the spec: \<^verbatim>\<open>helpers.ObjectDict\<close> is not among the sources. The spec
  has it as a name-keyed mapping, so subscription is a dictionary's: a key that is
  missing raises \<^verbatim>\<open>KeyError\<close>. The key is a widget's tag, which is \<open>None\<close> for an
  untagged widget.
\<close>

definition lookup_property :: "model \<Rightarrow> string option \<Rightarrow> error + ui_property" where
  "lookup_property m key =
     (case key of
        None \<Rightarrow> Inl (KeyError None)
      | Some n \<Rightarrow> (case properties m n of
                    None \<Rightarrow> Inl (KeyError (Some n))
                  | Some p \<Rightarrow> Inr p))"

subsection \<open>Registration of properties\<close>

text \<open>
  \<^verbatim>\<open>setup_properties\<close>: \<open>init\<close> is what the overridable hook
  \<^verbatim>\<open>initialize_properties\<close> returns (the empty list in \<^verbatim>\<open>Model\<close> itself); it is used
  when the argument is \<^verbatim>\<open>None\<close> or the empty list. Each record is stored under its
  name and then gets its value as default when the default is \<^verbatim>\<open>None\<close>; the dictionary
  holds the record itself, so it sees the assignment.
\<close>

definition register_property :: "ui_property \<Rightarrow> ui_property" where
  "register_property p = (if p_default p = PyNone then p\<lparr>p_default := p_value p\<rparr> else p)"

fun setup_loop ::
  "(string \<Rightarrow> ui_property option) \<Rightarrow> ui_property list \<Rightarrow> (string \<Rightarrow> ui_property option)" where
  "setup_loop tool_properties [] = tool_properties"
| "setup_loop tool_properties (p # ps) =
     setup_loop (tool_properties(p_name p \<mapsto> register_property p)) ps"

definition setup_properties ::
  "ui_property list \<Rightarrow> ui_property list option \<Rightarrow> (string \<Rightarrow> ui_property option)" where
  "setup_properties init props =
     (let ps = (case props of None \<Rightarrow> init | Some xs \<Rightarrow> if xs = [] then init else xs)
      in setup_loop Map.empty ps)"

subsection \<open>Linking and discovery\<close>

text \<open>
  \<^verbatim>\<open>link_property\<close> returns its boolean together with the state; the widget is reached
  through the store. \<^verbatim>\<open>signal.connect(self.save_properties)\<close> sets \<open>connected\<close>.
\<close>

definition link_property :: "model \<Rightarrow> nat \<Rightarrow> string \<Rightarrow> bool \<times> model" where
  "link_property m w ui_property_name =
     (if w \<in> set (property_widgets m) then (False, m)
      else
        let widget_name = widget_property_name m w;
            widget_info = SUPPORT_WIDGET_TYPES (wtype (objs m w));
            m1 = (case widget_info of
                    Some info \<Rightarrow> m\<lparr>objs := (objs m)(w := (objs m w)\<lparr>connected := True\<rparr>)\<rparr>
                  | None \<Rightarrow> m);
            modified = (widget_info \<noteq> None)
        in if \<not> modified \<and> show_warnings m1
           then (False, warn m1 w (Some ui_property_name))
           else (True,
                 m1\<lparr>objs := (objs m1)(w := (objs m1 w)\<lparr>prop_tag := Some ui_property_name\<rparr>),
                    widgets := widgets m1 @ [w]\<rparr>))"

definition widgets_linked_to_property :: "model \<Rightarrow> string \<Rightarrow> nat list" where
  "widgets_linked_to_property m property_name =
     filter (\<lambda>w. \<not> (prop_tag (objs m w) = None \<or> prop_tag (objs m w) \<noteq> Some property_name))
       (property_widgets m)"

text \<open>
  The object tree the discovery walks: each object has its \<^verbatim>\<open>__dict__\<close> (attribute
  names in insertion order, each with the identity and the runtime type of the value it
  holds) and its list of children.
\<close>

type_synonym obj_ref = "nat \<times> widget_type"

datatype qobject = QObject (own_attrs: "(string \<times> obj_ref) list") (children: "qobject list")

definition linkable :: "(string \<times> obj_ref) list \<Rightarrow> (string \<times> obj_ref) list" where
  "linkable attrs = filter (\<lambda>(attr, r). SUPPORT_WIDGET_TYPES (snd r) \<noteq> None) attrs"

fun iterate_linkable_properties :: "qobject \<Rightarrow> (string \<times> obj_ref) list" where
  "iterate_linkable_properties (QObject attrs chn) =
     linkable attrs @
     concat (map (\<lambda>child. linkable (own_attrs child) @ iterate_linkable_properties child) chn)"

subsection \<open>From widgets to properties\<close>

definition listen :: "model \<Rightarrow> string \<Rightarrow> nat \<Rightarrow> model" where
  "listen m ui_property_name listener =
     m\<lparr>listeners := (listeners m)(ui_property_name \<mapsto>
          (case listeners m ui_property_name of None \<Rightarrow> [] | Some ls \<Rightarrow> ls) @ [listener])\<rparr>"

text \<open>\<^verbatim>\<open>self._listeners.get(property_name, [])\<close>, for a tag that may be \<^verbatim>\<open>None\<close>.\<close>

definition listeners_get :: "model \<Rightarrow> string option \<Rightarrow> nat list" where
  "listeners_get m key =
     (case key of
        None \<Rightarrow> []
      | Some n \<Rightarrow> (case listeners m n of None \<Rightarrow> [] | Some ls \<Rightarrow> ls))"

text \<open>
  \<^verbatim>\<open>widget_values\<close> builds a dictionary, here an association list with
  \<^verbatim>\<open>result[k] = v\<close> as \<open>AList.update\<close>: a new key goes to the end, a known key keeps
  its place. Calling an accessor the widget lacks raises \<^verbatim>\<open>AttributeError\<close>.
\<close>

fun read_getsets ::
  "widget \<Rightarrow> nat \<Rightarrow> ui_property_get_set list \<Rightarrow> (string \<times> pyval) list
     \<Rightarrow> error + (string \<times> pyval) list" where
  "read_getsets wd i [] result = Inr result"
| "read_getsets wd i (gs # rest) result =
     (let prop = (if i = 0 then ''value'' else getter gs)
      in case accessors wd (getter gs) of
           None \<Rightarrow> Inl (AttributeError (getter gs))
         | Some v \<Rightarrow> read_getsets wd (Suc i) rest (AList.update prop v result))"

fun read_extra ::
  "widget \<Rightarrow> (string \<times> string) list \<Rightarrow> (string \<times> pyval) list
     \<Rightarrow> error + (string \<times> pyval) list" where
  "read_extra wd [] result = Inr result"
| "read_extra wd ((k, v) # rest) result =
     (case accessors wd v of
        None \<Rightarrow> Inl (AttributeError v)
      | Some x \<Rightarrow> read_extra wd rest (AList.update k x result))"

definition widget_values :: "model \<Rightarrow> nat \<Rightarrow> (error + (string \<times> pyval) list) \<times> model" where
  "widget_values m w =
     (let wd = objs m w; widget_name = widget_property_name m w
      in case SUPPORT_WIDGET_TYPES (wtype wd) of
           Some widget_info \<Rightarrow>
             (case read_getsets wd 0 (getsets widget_info) [] of
                Inl e \<Rightarrow> (Inl e, m)
              | Inr result \<Rightarrow>
                  (read_extra wd (case extraProperties wd of Some d \<Rightarrow> d | None \<Rightarrow> []) result, m))
         | None \<Rightarrow> (Inr [], if show_warnings m then warn m w widget_name else m))"

text \<open>
  The body of the loop of \<^verbatim>\<open>save_properties\<close> for one widget: the facets are written
  onto the record found under the widget's tag, one subscription per facet, and then
  each listener of the tag is called with the facet \<open>value\<close>.
\<close>

text \<open>
  \<^verbatim>\<open>setattr\<close> changes the record that the dictionary holds under the key: the
  model stores the changed record back under that key. The subscription can fail at the
  first facet only, since later rounds find the record the earlier ones stored, so a
  failure of \<open>set_facets\<close> leaves the state as it was.
\<close>

definition put_property :: "model \<Rightarrow> string option \<Rightarrow> ui_property \<Rightarrow> model" where
  "put_property m key p =
     (case key of
        None \<Rightarrow> m
      | Some n \<Rightarrow> m\<lparr>properties := (properties m)(n \<mapsto> p)\<rparr>)"

fun set_facets :: "model \<Rightarrow> string option \<Rightarrow> (string \<times> pyval) list \<Rightarrow> error + model" where
  "set_facets m property_name [] = Inr m"
| "set_facets m property_name ((k, v) # rest) =
     (case lookup_property m property_name of
        Inl e \<Rightarrow> Inl e
      | Inr p \<Rightarrow>
          set_facets (put_property m property_name (setattr_prop k v p)) property_name rest)"

definition notify :: "model \<Rightarrow> nat list \<Rightarrow> (string \<times> pyval) list \<Rightarrow> model" where
  "notify m ls vals =
     m\<lparr>calls := calls m @
          concat (map (\<lambda>listener.
            map (\<lambda>(k, v). (listener, v)) (filter (\<lambda>(k, v). k = ''value'') vals)) ls)\<rparr>"

definition save_widget :: "model \<Rightarrow> nat \<Rightarrow> error option \<times> model" where
  "save_widget m w =
     (let property_name = widget_property_name m w
      in case widget_values m w of
           (Inl e, m1) \<Rightarrow> (Some e, m1)
         | (Inr vals, m1) \<Rightarrow>
             (case set_facets m1 property_name vals of
                Inl e \<Rightarrow> (Some e, m1)
              | Inr m2 \<Rightarrow> (None, notify m2 (listeners_get m2 property_name) vals)))"

fun save_loop :: "model \<Rightarrow> nat list \<Rightarrow> error option \<times> model" where
  "save_loop m [] = (None, m)"
| "save_loop m (w # ws) =
     (case save_widget m w of
        (Some e, m1) \<Rightarrow> (Some e, m1)
      | (None, m1) \<Rightarrow> save_loop m1 ws)"

definition save_properties :: "model \<Rightarrow> error option \<times> model" where
  "save_properties m =
     (if block_save m then (None, m) else save_loop m (property_widgets m))"

subsection \<open>From properties to widgets\<close>

text \<open>
  Calling a widget's setter is the toolkit's work. A setter that does not take the value
  raises \<^verbatim>\<open>TypeError\<close>, which \<^verbatim>\<open>update_widget\<close> raises again with its own message.
  A setter that takes it stores it, so that the paired getter returns it, and emits the
  widget's save signal: when \<^verbatim>\<open>link_property\<close> has connected the signal and the
  widget's signals are not blocked, \<^verbatim>\<open>save_properties\<close> runs at once, inside the
  setter call, and what it raises comes out of the setter call. This is the feedback the
  flag \<open>block_save\<close> is there for.
\<close>

definition call_setter ::
  "model \<Rightarrow> nat \<Rightarrow> string option \<Rightarrow> ui_property_get_set \<Rightarrow> pyval \<Rightarrow> error option \<times> model" where
  "call_setter m w widget_name getset v =
     (let wd = objs m w
      in if \<not> accepts wd (setter getset) v
         then (Some (TypeError widget_name (setter getset) v), m)
         else
           let m1 = m\<lparr>objs := (objs m)(w := wd\<lparr>accessors := (accessors wd)(getter getset \<mapsto> v)\<rparr>)\<rparr>
           in if connected wd \<and> \<not> signals_blocked wd then save_properties m1 else (None, m1))"

text \<open>
  The loop of \<^verbatim>\<open>update_widget\<close> over \<^verbatim>\<open>enumerate(widget_info.getsets)\<close>: the
  record is looked up under the widget's tag at every round, the field read is \<open>value\<close>
  at index 0 and the getter's name after it.
\<close>

fun set_loop ::
  "model \<Rightarrow> nat \<Rightarrow> string option \<Rightarrow> nat \<Rightarrow> ui_property_get_set list \<Rightarrow> error option \<times> model" where
  "set_loop m w widget_name i [] = (None, m)"
| "set_loop m w widget_name i (getset # rest) =
     (let prop = (if i = 0 then ''value'' else getter getset)
      in case lookup_property m widget_name of
           Inl e \<Rightarrow> (Some e, m)
         | Inr p \<Rightarrow>
             (case getattr_prop p prop of
                None \<Rightarrow> (Some (AttributeError prop), m)
              | Some v \<Rightarrow>
                  (case call_setter m w widget_name getset v of
                     (Some e, m1) \<Rightarrow> (Some e, m1)
                   | (None, m1) \<Rightarrow> set_loop m1 w widget_name (Suc i) rest)))"

definition update_widget :: "model \<Rightarrow> nat \<Rightarrow> error option \<times> model" where
  "update_widget m w =
     (let widget_name = widget_property_name m w
      in case SUPPORT_WIDGET_TYPES (wtype (objs m w)) of
           Some widget_info \<Rightarrow>
             (case set_loop m w widget_name 0 (getsets widget_info) of
                (Some e, m1) \<Rightarrow> (Some e, m1)
              | (None, m1) \<Rightarrow>
                  (None, if getsets widget_info = [] \<and> show_warnings m1
                         then warn m1 w widget_name else m1))
         | None \<Rightarrow> (None, if show_warnings m then warn m w widget_name else m))"

fun update_loop :: "model \<Rightarrow> nat list \<Rightarrow> error option \<times> model" where
  "update_loop m [] = (None, m)"
| "update_loop m (w # ws) =
     (case update_widget m w of
        (Some e, m1) \<Rightarrow> (Some e, m1)
      | (None, m1) \<Rightarrow> update_loop m1 ws)"

fun unblock_signals :: "model \<Rightarrow> nat list \<Rightarrow> model" where
  "unblock_signals m [] = m"
| "unblock_signals m (w # ws) =
     unblock_signals (m\<lparr>objs := (objs m)(w := (objs m w)\<lparr>signals_blocked := False\<rparr>)\<rparr>) ws"

text \<open>
  \<^verbatim>\<open>update_widget_from_property\<close> has no \<^verbatim>\<open>try\<close>: when the first loop raises,
  the second loop and the assignment that clears the flag are not reached.
\<close>

definition update_widget_from_property :: "model \<Rightarrow> string \<Rightarrow> error option \<times> model" where
  "update_widget_from_property m ui_property_name =
     (let m1 = m\<lparr>block_save := True\<rparr>;
          property_widgets = widgets_linked_to_property m1 ui_property_name
      in case update_loop m1 property_widgets of
           (Some e, m2) \<Rightarrow> (Some e, m2)
         | (None, m2) \<Rightarrow> (None, (unblock_signals m2 property_widgets)\<lparr>block_save := False\<rparr>))"

text \<open>
  \<^verbatim>\<open>update_widgets_from_properties\<close> runs both loops under \<^verbatim>\<open>try\<close> and clears
  the flag in the \<^verbatim>\<open>finally\<close> block, after which the error goes on to the caller.
\<close>

definition update_widgets_from_properties :: "model \<Rightarrow> error option \<times> model" where
  "update_widgets_from_properties m =
     (let m1 = m\<lparr>block_save := True\<rparr>;
          ws = property_widgets m1
      in case update_loop m1 ws of
           (Some e, m2) \<Rightarrow> (Some e, m2\<lparr>block_save := False\<rparr>)
         | (None, m2) \<Rightarrow> (None, (unblock_signals m2 ws)\<lparr>block_save := False\<rparr>))"

definition call_listeners :: "model \<Rightarrow> nat list \<Rightarrow> pyval \<Rightarrow> model" where
  "call_listeners m ls v = m\<lparr>calls := calls m @ map (\<lambda>listener. (listener, v)) ls\<rparr>"

definition update_property :: "model \<Rightarrow> string \<Rightarrow> pyval \<Rightarrow> error option \<times> model" where
  "update_property m ui_property_name v =
     (case properties m ui_property_name of
        None \<Rightarrow> (None, m)
      | Some p \<Rightarrow>
          (let m1 = m\<lparr>properties := (properties m)(ui_property_name \<mapsto> p\<lparr>p_value := v\<rparr>)\<rparr>
           in case update_widget_from_property m1 ui_property_name of
                (Some e, m2) \<Rightarrow> (Some e, m2)
              | (None, m2) \<Rightarrow>
                  (None, call_listeners m2 (listeners_get m2 (Some ui_property_name)) v)))"

subsection \<open>Agreement of two states on the engine's data\<close>

text \<open>
  Two states agree on the engine when they differ at most in what the widgets' accessors
  return, in the blocking of signals and in the warnings logged.
\<close>

definition same_engine :: "model \<Rightarrow> model \<Rightarrow> bool" where
  "same_engine m m' \<longleftrightarrow>
     widgets m' = widgets m \<and> properties m' = properties m \<and> listeners m' = listeners m \<and>
     show_warnings m' = show_warnings m \<and> block_save m' = block_save m \<and> calls m' = calls m \<and>
     (\<forall>u. wtype (objs m' u) = wtype (objs m u) \<and> prop_tag (objs m' u) = prop_tag (objs m u) \<and>
          accepts (objs m' u) = accepts (objs m u))"

subsection \<open>Example states\<close>

text \<open>
  \<^verbatim>\<open>Model.__init__\<close> over a store of widgets, with \<open>init\<close> the result of
  \<^verbatim>\<open>initialize_properties\<close>.
\<close>

definition Model_init :: "ui_property list \<Rightarrow> (nat \<Rightarrow> widget) \<Rightarrow> model" where
  "Model_init init store =
     \<lparr>widgets = [], properties = setup_properties init None, listeners = Map.empty,
      show_warnings = True, block_save = False, objs = store, calls = [], warnings = []\<rparr>"

text \<open>
  A line edit. Its \<^verbatim>\<open>setText\<close> takes a string, and \<^verbatim>\<open>None\<close>, which the bindings
  turn into the null string; any other value, an integer for one, makes it raise
  \<^verbatim>\<open>TypeError\<close>.
\<close>

definition line_edit :: widget where
  "line_edit =
     \<lparr>wtype = QLineEdit, prop_tag = None, extraProperties = None,
      accessors = [''text'' \<mapsto> PyStr []],
      accepts = (\<lambda>s v. case v of PyStr x \<Rightarrow> True | PyNone \<Rightarrow> True | _ \<Rightarrow> False),
      connected = False, signals_blocked = False\<rparr>"

text \<open>A progress bar showing 3 whose \<^verbatim>\<open>setValue\<close> takes integers only.\<close>

definition progress_bar :: widget where
  "progress_bar =
     \<lparr>wtype = QProgressBar, prop_tag = None, extraProperties = None,
      accessors = [''value'' \<mapsto> PyInt 3],
      accepts = (\<lambda>s v. case v of PyInt x \<Rightarrow> True | _ \<Rightarrow> False),
      connected = False, signals_blocked = False\<rparr>"

text \<open>A plain \<^verbatim>\<open>QWidget\<close>, a type the table does not list.\<close>

definition plain_widget :: widget where
  "plain_widget =
     \<lparr>wtype = OtherType ''QWidget'', prop_tag = None, extraProperties = None,
      accessors = Map.empty, accepts = (\<lambda>s v. True),
      connected = False, signals_blocked = False\<rparr>"

text \<open>
  A model with the property \<open>title\<close>, registered with the integer 5 as its value, and
  a line edit linked to it.
\<close>

definition title_model :: model where
  "title_model =
     snd (link_property
       (Model_init [UiProperty ''title'' (PyInt 5) PyNone PyNone] (\<lambda>w. line_edit))
       0 ''title'')"

text \<open>
  The spec's example: the property \<open>volume\<close> with value 0 and no default, and a
  progress bar linked to it.
\<close>

definition volume_model :: model where
  "volume_model =
     snd (link_property
       (Model_init [UiProperty ''volume'' (PyInt 0) PyNone PyNone] (\<lambda>w. progress_bar))
       0 ''volume'')"

text \<open>
  A model whose warnings are switched off, with the property \<open>title\<close> and a plain
  \<^verbatim>\<open>QWidget\<close> in the store, not linked yet.
\<close>

definition quiet_model :: model where
  "quiet_model =
     (Model_init [UiProperty ''title'' PyNone PyNone PyNone] (\<lambda>w. plain_widget))
       \<lparr>show_warnings := False\<rparr>"

text \<open>
  A model that registers \<open>title\<close> only and has a line edit linked under the name
  \<open>ghost\<close>, which \<^verbatim>\<open>link_property\<close> does not check against the registry.
\<close>

definition ghost_model :: model where
  "ghost_model =
     snd (link_property
       (Model_init [UiProperty ''title'' (PyStr ''a'') PyNone PyNone] (\<lambda>w. line_edit))
       0 ''ghost'')"

text \<open>The same registry with a plain \<^verbatim>\<open>QWidget\<close> tracked under \<open>ghost\<close>.\<close>

definition ghost_plain_model :: model where
  "ghost_plain_model =
     (Model_init [UiProperty ''title'' (PyStr ''a'') PyNone PyNone]
        (\<lambda>w. plain_widget\<lparr>prop_tag := Some ''ghost''\<rparr>))
       \<lparr>widgets := [0]\<rparr>"

text \<open>A window with no attribute of its own and one child that holds a check box.\<close>

definition window_tree :: qobject where
  "window_tree = QObject [] [QObject [(''check'', (1, QCheckBox))] []]"

text \<open>The model of the spec's example with two listeners registered for \<open>volume\<close>.\<close>

definition listening_model :: model where
  "listening_model = listen (listen volume_model ''volume'' 1) ''volume'' 2"

text \<open>A list with the name \<open>volume\<close> twice and an explicit default for \<open>title\<close>.\<close>

definition three_properties :: "ui_property list" where
  "three_properties =
     [UiProperty ''volume'' (PyInt 0) PyNone PyNone,
      UiProperty ''title'' (PyStr ''a'') (PyStr ''b'') PyNone,
      UiProperty ''volume'' (PyInt 5) PyNone PyNone]"

subsection \<open>What a pass of \<^verbatim>\<open>save_properties\<close> is expected to do\<close>

text \<open>
  The facet map of a widget is the dictionary \<^verbatim>\<open>widget_values\<close> returns for it (empty
  when the call raises). The notifications of a widget are the listener calls the claim
  about \<^verbatim>\<open>save_properties\<close> expects for it: when its facet map has the key \<open>value\<close>,
  one call for each listener registered for the widget's property, in registration order,
  with the value read from the widget; none otherwise.
\<close>

definition facet_map :: "model \<Rightarrow> nat \<Rightarrow> (string \<times> pyval) list" where
  "facet_map m w = (case fst (widget_values m w) of Inl e \<Rightarrow> [] | Inr vals \<Rightarrow> vals)"

definition notifications :: "model \<Rightarrow> nat \<Rightarrow> (nat \<times> pyval) list" where
  "notifications m w =
     (case map_of (facet_map m w) ''value'' of
        None \<Rightarrow> []
      | Some v \<Rightarrow> map (\<lambda>listener. (listener, v)) (listeners_get m (widget_property_name m w)))"

text \<open>
  Two states have the same registry when they differ at most in the property records,
  the trace of listener calls and the warnings logged.
\<close>

definition same_registry :: "model \<Rightarrow> model \<Rightarrow> bool" where
  "same_registry m m' \<longleftrightarrow>
     objs m' = objs m \<and> widgets m' = widgets m \<and> listeners m' = listeners m \<and>
     show_warnings m' = show_warnings m \<and> block_save m' = block_save m"

text \<open>
  Two progress bars, showing 3 and 8, linked in this order to \<open>volume\<close>, and one
  listener registered for \<open>volume\<close>.
\<close>

definition two_bars_model :: model where
  "two_bars_model =
     listen
       (snd (link_property
         (snd (link_property
           (Model_init [UiProperty ''volume'' (PyInt 0) PyNone PyNone]
             (\<lambda>w. if w = 0 then progress_bar
                   else progress_bar\<lparr>accessors := [''value'' \<mapsto> PyInt 8]\<rparr>))
           0 ''volume''))
         1 ''volume''))
       ''volume'' 1"

section \<open>Properties of the binding engine\<close>

subsection \<open>Updates under the save block\<close>

lemma same_engine_refl: "same_engine m m"
  by (simp add: same_engine_def)

lemma same_engine_trans: "same_engine a b \<Longrightarrow> same_engine b c \<Longrightarrow> same_engine a c"
  by (simp add: same_engine_def)

lemma same_engine_warn: "same_engine m (warn m w nm)"
  by (simp add: same_engine_def warn_def)

lemma table_single_getset:
  "SUPPORT_WIDGET_TYPES t = Some info \<Longrightarrow> \<exists>gs. getsets info = [gs]"
  by (cases t) (auto simp: UiPropertyWidgetUpdate_def)

lemma save_properties_blocked: "block_save m \<Longrightarrow> save_properties m = (None, m)"
  by (simp add: save_properties_def)

lemma call_setter_blocked:
  "block_save m \<Longrightarrow> call_setter m w nm gs v =
     (if \<not> accepts (objs m w) (setter gs) v then (Some (TypeError nm (setter gs) v), m)
      else (None, m\<lparr>objs := (objs m)(w := (objs m w)\<lparr>accessors := (accessors (objs m w))(getter gs \<mapsto> v)\<rparr>)\<rparr>))"
  by (simp add: call_setter_def Let_def save_properties_def)

lemma call_setter_frame:
  assumes "block_save m" and "call_setter m w nm gs v = (e, m')"
  shows "same_engine m m' \<and> warnings m' = warnings m \<and> (\<forall>u. u \<noteq> w \<longrightarrow> objs m' u = objs m u)"
  using assms by (auto simp: call_setter_blocked same_engine_def split: if_splits)

lemma set_loop_frame:
  "block_save m \<Longrightarrow> set_loop m w nm i gss = (e, m') \<Longrightarrow>
     same_engine m m' \<and> warnings m' = warnings m \<and> (\<forall>u. u \<noteq> w \<longrightarrow> objs m' u = objs m u)"
proof (induction gss arbitrary: m i)
  case Nil
  then show ?case by (simp add: same_engine_refl)
next
  case (Cons gs rest)
  show ?case
  proof (cases "lookup_property m nm")
    case (Inl err)
    with Cons.prems show ?thesis by (auto simp: same_engine_refl)
  next
    case (Inr p)
    show ?thesis
    proof (cases "getattr_prop p (if i = 0 then ''value'' else getter gs)")
      case None
      with Inr Cons.prems show ?thesis by (auto simp: same_engine_refl Let_def)
    next
      case (Some v)
      obtain e1 m1 where cs: "call_setter m w nm gs v = (e1, m1)" by (cases "call_setter m w nm gs v")
      from call_setter_frame[OF Cons.prems(1) cs]
      have f1: "same_engine m m1" "warnings m1 = warnings m" "\<forall>u. u \<noteq> w \<longrightarrow> objs m1 u = objs m u"
        by auto
      show ?thesis
      proof (cases e1)
        case None
        with Cons.prems Inr Some cs have rest: "set_loop m1 w nm (Suc i) rest = (e, m')"
          by (simp add: Let_def)
        from f1(1) Cons.prems(1) have "block_save m1" by (simp add: same_engine_def)
        from Cons.IH[OF this rest] f1 show ?thesis
          by (auto intro: same_engine_trans)
      next
        case (Some err)
        with Cons.prems Inr \<open>getattr_prop p _ = Some v\<close> cs have "m' = m1"
          by (simp add: Let_def)
        with f1 show ?thesis by simp
      qed
    qed
  qed
qed

lemma update_widget_frame:
  assumes "block_save m" and "update_widget m w = (e, m')"
  shows "same_engine m m' \<and> (\<forall>u. u \<noteq> w \<longrightarrow> objs m' u = objs m u)"
proof (cases "SUPPORT_WIDGET_TYPES (wtype (objs m w))")
  case None
  with assms show ?thesis
    by (auto simp: update_widget_def Let_def same_engine_def warn_def split: if_splits)
next
  case (Some info)
  obtain e1 m1 where sl: "set_loop m w (widget_property_name m w) 0 (getsets info) = (e1, m1)"
    by (cases "set_loop m w (widget_property_name m w) 0 (getsets info)")
  from set_loop_frame[OF assms(1) sl]
  have f: "same_engine m m1" "\<forall>u. u \<noteq> w \<longrightarrow> objs m1 u = objs m u" by auto
  have "m' = m1 \<or> m' = warn m1 w (widget_property_name m w)"
    using assms(2) Some sl by (cases e1) (auto simp: update_widget_def Let_def split: if_splits)
  then show ?thesis
  proof
    assume "m' = m1" with f show ?thesis by simp
  next
    assume "m' = warn m1 w (widget_property_name m w)"
    with f show ?thesis
      using same_engine_trans[OF f(1) same_engine_warn] by (simp add: warn_def)
  qed
qed

lemma update_loop_frame:
  "block_save m \<Longrightarrow> update_loop m ws = (e, m') \<Longrightarrow>
     same_engine m m' \<and> (\<forall>u. u \<notin> set ws \<longrightarrow> objs m' u = objs m u)"
proof (induction ws arbitrary: m)
  case Nil
  then show ?case by (simp add: same_engine_refl)
next
  case (Cons w ws)
  obtain e1 m1 where uw: "update_widget m w = (e1, m1)" by (cases "update_widget m w")
  from update_widget_frame[OF Cons.prems(1) uw]
  have f: "same_engine m m1" "\<forall>u. u \<noteq> w \<longrightarrow> objs m1 u = objs m u" by auto
  show ?case
  proof (cases e1)
    case None
    with Cons.prems uw have rest: "update_loop m1 ws = (e, m')" by simp
    from f(1) Cons.prems(1) have "block_save m1" by (simp add: same_engine_def)
    from Cons.IH[OF this rest] f show ?thesis by (auto intro: same_engine_trans)
  next
    case (Some err)
    with Cons.prems uw have "m' = m1" by simp
    with f show ?thesis by simp
  qed
qed

lemma unblock_signals_frame:
  "same_engine m (unblock_signals m ws) \<and> warnings (unblock_signals m ws) = warnings m \<and>
   (\<forall>u. accessors (objs (unblock_signals m ws) u) = accessors (objs m u))"
proof (induction ws arbitrary: m)
  case Nil
  then show ?case by (simp add: same_engine_refl)
next
  case (Cons w ws)
  let ?m1 = "m\<lparr>objs := (objs m)(w := (objs m w)\<lparr>signals_blocked := False\<rparr>)\<rparr>"
  have "same_engine m ?m1" by (simp add: same_engine_def)
  with Cons.IH[of ?m1] show ?case
    by (auto intro: same_engine_trans)
qed

lemma update_widget_sets:
  assumes "block_save m" and "update_widget m w = (None, m')"
    and "SUPPORT_WIDGET_TYPES (wtype (objs m w)) = Some info"
    and "prop_tag (objs m w) = Some p" and "properties m p = Some r"
  shows "accessors (objs m' w) (getter (hd (getsets info))) = Some (p_value r)"
proof -
  from table_single_getset[OF assms(3)] obtain gs where gs: "getsets info = [gs]" by blast
  show ?thesis
    using assms gs
    by (auto simp: update_widget_def Let_def widget_property_name_def lookup_property_def
        getattr_prop_def call_setter_blocked split: if_splits)
qed

lemma update_loop_sets:
  "block_save m \<Longrightarrow> update_loop m ws = (None, m') \<Longrightarrow> properties m p = Some r \<Longrightarrow>
   w \<in> set ws \<Longrightarrow> SUPPORT_WIDGET_TYPES (wtype (objs m w)) = Some info \<Longrightarrow>
   prop_tag (objs m w) = Some p \<Longrightarrow>
   accessors (objs m' w) (getter (hd (getsets info))) = Some (p_value r)"
proof (induction ws arbitrary: m)
  case Nil
  then show ?case by simp
next
  case (Cons x xs)
  obtain e1 m1 where uw: "update_widget m x = (e1, m1)" by (cases "update_widget m x")
  with Cons.prems(2) have e1: "e1 = None" and rest: "update_loop m1 xs = (None, m')"
    by (cases e1; simp)+
  from update_widget_frame[OF Cons.prems(1) uw]
  have f: "same_engine m m1" by simp
  then have b1: "block_save m1" and p1: "properties m1 p = Some r"
    and t1: "SUPPORT_WIDGET_TYPES (wtype (objs m1 w)) = Some info"
    and g1: "prop_tag (objs m1 w) = Some p"
    using Cons.prems by (simp_all add: same_engine_def)
  show ?case
  proof (cases "w \<in> set xs")
    case True
    from Cons.IH[OF b1 rest p1 True t1 g1] show ?thesis .
  next
    case False
    with Cons.prems(4) have wx: "w = x" by simp
    from uw e1 wx have "update_widget m w = (None, m1)" by simp
    from update_widget_sets[OF Cons.prems(1) this Cons.prems(5) Cons.prems(6) Cons.prems(3)]
    have "accessors (objs m1 w) (getter (hd (getsets info))) = Some (p_value r)" .
    moreover from update_loop_frame[OF b1 rest] False have "objs m' w = objs m1 w" by simp
    ultimately show ?thesis by simp
  qed
qed

lemma update_widget_from_property_frame:
  assumes "update_widget_from_property m p = (e, m')"
  shows "same_engine (m\<lparr>block_save := True\<rparr>) (m'\<lparr>block_save := True\<rparr>)"
proof -
  let ?m1 = "m\<lparr>block_save := True\<rparr>"
  let ?ws = "widgets_linked_to_property ?m1 p"
  obtain e2 m2 where ul: "update_loop ?m1 ?ws = (e2, m2)" by (cases "update_loop ?m1 ?ws")
  have b: "block_save ?m1" by simp
  from update_loop_frame[OF b ul] have f: "same_engine ?m1 m2" by simp
  have "m' = m2 \<or> m' = (unblock_signals m2 ?ws)\<lparr>block_save := False\<rparr>"
    using assms ul by (cases e2) (auto simp: update_widget_from_property_def Let_def)
  then show ?thesis
  proof
    assume "m' = m2"
    with f show ?thesis by (simp add: same_engine_def)
  next
    assume "m' = (unblock_signals m2 ?ws)\<lparr>block_save := False\<rparr>"
    moreover have "same_engine m2 (unblock_signals m2 ?ws)"
      using unblock_signals_frame[of m2 ?ws] by simp
    ultimately show ?thesis using f by (simp add: same_engine_def)
  qed
qed

lemma update_widgets_from_properties_frame:
  assumes "update_widgets_from_properties m = (e, m')"
  shows "same_engine (m\<lparr>block_save := False\<rparr>) m'"
proof -
  let ?m1 = "m\<lparr>block_save := True\<rparr>"
  let ?ws = "property_widgets ?m1"
  obtain e2 m2 where ul: "update_loop ?m1 ?ws = (e2, m2)" by (cases "update_loop ?m1 ?ws")
  have b: "block_save ?m1" by simp
  from update_loop_frame[OF b ul] have f: "same_engine ?m1 m2" by simp
  have "m' = m2\<lparr>block_save := False\<rparr> \<or> m' = (unblock_signals m2 ?ws)\<lparr>block_save := False\<rparr>"
    using assms ul by (cases e2) (auto simp: update_widgets_from_properties_def Let_def)
  then show ?thesis
  proof
    assume "m' = m2\<lparr>block_save := False\<rparr>"
    with f show ?thesis by (simp add: same_engine_def)
  next
    assume "m' = (unblock_signals m2 ?ws)\<lparr>block_save := False\<rparr>"
    moreover have "same_engine m2 (unblock_signals m2 ?ws)"
      using unblock_signals_frame[of m2 ?ws] by simp
    ultimately show ?thesis using f by (simp add: same_engine_def)
  qed
qed

lemma update_widgets_from_properties_clears_flag:
  "block_save (snd (update_widgets_from_properties m)) = False"
  by (simp add: update_widgets_from_properties_def Let_def split: prod.splits option.splits)

lemma update_widget_from_property_clears_flag_on_return:
  "fst (update_widget_from_property m p) = None \<Longrightarrow>
     block_save (snd (update_widget_from_property m p)) = False"
  by (auto simp: update_widget_from_property_def Let_def split: prod.splits option.splits)

lemma update_widget_from_property_keeps_flag_on_raise:
  "fst (update_widget_from_property m p) = Some e \<Longrightarrow>
     block_save (snd (update_widget_from_property m p)) = True"
proof -
  assume a: "fst (update_widget_from_property m p) = Some e"
  obtain e1 m1 where r: "update_widget_from_property m p = (e1, m1)"
    by (cases "update_widget_from_property m p")
  from update_widget_from_property_frame[OF r]
  have s: "same_engine (m\<lparr>block_save := True\<rparr>) (m1\<lparr>block_save := True\<rparr>)" .
  let ?m0 = "m\<lparr>block_save := True\<rparr>"
  obtain e2 m2 where ul: "update_loop ?m0 (widgets_linked_to_property ?m0 p) = (e2, m2)"
    by (cases "update_loop ?m0 (widgets_linked_to_property ?m0 p)")
  have b: "block_save ?m0" by simp
  from update_loop_frame[OF b ul] have "block_save m2" by (simp add: same_engine_def)
  moreover from a r ul have "m1 = m2"
    by (cases e2) (auto simp: update_widget_from_property_def Let_def)
  ultimately show ?thesis using r by simp
qed

subsection \<open>Facts about the example states\<close>

lemmas example_defs = Model_init_def line_edit_def progress_bar_def plain_widget_def
  link_property_def property_widgets_def widget_property_name_def setup_properties_def
  register_property_def UiProperty_def UiPropertyWidgetUpdate_def UiPropertyGetSet_def Let_def

lemma volume_model_fields:
  "widgets volume_model = [0]"
  "properties volume_model ''volume'' = Some (UiProperty ''volume'' (PyInt 0) (PyInt 0) PyNone)"
  "properties volume_model ''ghost'' = None"
  "block_save volume_model = False"
  "calls volume_model = []"
  "listeners volume_model = Map.empty"
  "accessors (objs volume_model 0) ''value'' = Some (PyInt 3)"
  by (simp_all add: volume_model_def example_defs)

lemma listening_model_fields:
  "properties listening_model ''volume'' = Some (UiProperty ''volume'' (PyInt 0) (PyInt 0) PyNone)"
  "listeners_get listening_model (Some ''volume'') = [1, 2]"
  "widgets_linked_to_property listening_model ''volume'' = [0]"
  "wtype (objs listening_model 0) = QProgressBar"
  "accepts (objs listening_model 0) s (PyInt i)"
  "calls listening_model = []"
  by (simp_all add: listening_model_def listen_def listeners_get_def
      widgets_linked_to_property_def volume_model_def example_defs)

lemma ghost_model_fields:
  "widgets ghost_model = [0]"
  "prop_tag (objs ghost_model 0) = Some ''ghost''"
  "properties ghost_model ''ghost'' = None"
  "SUPPORT_WIDGET_TYPES (wtype (objs ghost_model 0)) \<noteq> None"
  "widgets ghost_plain_model = [0]"
  "prop_tag (objs ghost_plain_model 0) = Some ''ghost''"
  "properties ghost_plain_model ''ghost'' = None"
  "SUPPORT_WIDGET_TYPES (wtype (objs ghost_plain_model 0)) = None"
  "show_warnings ghost_plain_model"
  by (simp_all add: ghost_model_def ghost_plain_model_def example_defs)

subsection \<open>The save block on every exit path\<close>

text \<open>
  Claim C1. The flag \<open>block_save\<close> should be false when
  \<^verbatim>\<open>update_widgets_from_properties\<close> and \<^verbatim>\<open>update_widget_from_property\<close> are left,
  also by an exception of \<^verbatim>\<open>update_widget\<close>. The first function does so
  (\<open>update_widgets_from_properties_clears_flag\<close>). The second does not: with the
  property \<open>title\<close> registered with the value 5 and a line edit linked to it,
  \<^verbatim>\<open>update_widget_from_property("title")\<close> passes the integer to \<^verbatim>\<open>setText\<close>,
  the \<^verbatim>\<open>TypeError\<close> leaves the function, and the flag stays true. By
  \<open>update_widget_from_property_keeps_flag_on_raise\<close> this is so whenever the function
  raises, whatever the widget and the value.
\<close>

theorem update_widget_from_property_flag_stuck:
  "fst (update_widget_from_property title_model ''title'') =
     Some (TypeError (Some ''title'') ''setText'' (PyInt 5)) \<and>
   block_save (snd (update_widget_from_property title_model ''title'')) = True"
  by (simp add: update_widget_from_property_def widgets_linked_to_property_def update_widget_def
      title_model_def example_defs lookup_property_def getattr_prop_def call_setter_def)

subsection \<open>Linking a widget of an unsupported type\<close>

lemma link_property_unsupported_warned:
  "show_warnings m \<Longrightarrow> SUPPORT_WIDGET_TYPES (wtype (objs m w)) = None \<Longrightarrow>
     link_property m w n =
       (False, if w \<in> set (widgets m) then m else warn m w (Some n))"
  by (simp add: link_property_def property_widgets_def Let_def)

text \<open>
  Claim C2. A widget whose type is not in the table should be refused by
  \<^verbatim>\<open>link_property\<close> whether or not warnings are shown. With warnings shown it is
  (\<open>link_property_unsupported_warned\<close>: the result is false and only a warning is
  logged). With warnings switched off the \<^verbatim>\<open>return False\<close> is not reached: for the
  plain \<^verbatim>\<open>QWidget\<close> of \<open>quiet_model\<close> the call returns true, the widget is tagged and
  appended, and \<^verbatim>\<open>widgets_linked_to_property\<close> lists it.
\<close>

theorem link_property_unsupported_quiet:
  "SUPPORT_WIDGET_TYPES (wtype (objs quiet_model 0)) = None \<and>
   fst (link_property quiet_model 0 ''title'') = True \<and>
   prop_tag (objs (snd (link_property quiet_model 0 ''title'')) 0) = Some ''title'' \<and>
   widgets (snd (link_property quiet_model 0 ''title'')) = [0] \<and>
   widgets_linked_to_property (snd (link_property quiet_model 0 ''title'')) ''title'' = [0]"
  by (simp add: quiet_model_def widgets_linked_to_property_def example_defs)

subsection \<open>A tag that matches no registered property\<close>

lemma update_nonempty: "AList.update k v al \<noteq> []"
  by (cases al) auto

lemma read_getsets_nonempty:
  "read_getsets wd i gss res = Inr vals \<Longrightarrow> gss \<noteq> [] \<or> res \<noteq> [] \<Longrightarrow> vals \<noteq> []"
proof (induction gss arbitrary: i res)
  case Nil
  then show ?case by simp
next
  case (Cons gs rest)
  from Cons.prems(1) obtain x where x: "accessors wd (getter gs) = Some x"
    by (cases "accessors wd (getter gs)") (simp_all add: Let_def)
  with Cons.prems(1)
  have "read_getsets wd (Suc i) rest
          (AList.update (if i = 0 then ''value'' else getter gs) x res) = Inr vals"
    by (simp add: Let_def)
  then show ?case by (rule Cons.IH) (simp add: update_nonempty)
qed

lemma read_extra_nonempty:
  "read_extra wd d res = Inr vals \<Longrightarrow> res \<noteq> [] \<Longrightarrow> vals \<noteq> []"
proof (induction d arbitrary: res)
  case Nil
  then show ?case by simp
next
  case (Cons a d)
  obtain k acc where a: "a = (k, acc)" by (cases a)
  from Cons.prems(1) a obtain x where x: "accessors wd acc = Some x"
    by (cases "accessors wd acc") simp_all
  with Cons.prems(1) a have "read_extra wd d (AList.update k x res) = Inr vals" by simp
  then show ?case by (rule Cons.IH) (simp add: update_nonempty)
qed

lemma widget_values_supported:
  assumes "SUPPORT_WIDGET_TYPES (wtype (objs m w)) = Some info"
  shows "snd (widget_values m w) = m \<and>
         (\<forall>vals. fst (widget_values m w) = Inr vals \<longrightarrow> vals \<noteq> [])"
proof -
  from table_single_getset[OF assms] obtain gs where gs: "getsets info = [gs]" by blast
  show ?thesis
  proof (cases "read_getsets (objs m w) 0 (getsets info) []")
    case (Inl e)
    with assms show ?thesis by (simp add: widget_values_def Let_def)
  next
    case (Inr res)
    with gs have "res \<noteq> []" using read_getsets_nonempty[of "objs m w" 0 "getsets info" "[]" res]
      by simp
    with assms Inr show ?thesis
      by (auto simp: widget_values_def Let_def dest: read_extra_nonempty)
  qed
qed

lemma lookup_property_mismatch:
  "\<forall>n. tag = Some n \<longrightarrow> properties m n = None \<Longrightarrow>
     lookup_property m tag = Inl (KeyError tag)"
  by (cases tag) (simp_all add: lookup_property_def)

lemma set_facets_mismatch:
  "lookup_property m nm = Inl e \<Longrightarrow> vals \<noteq> [] \<Longrightarrow> set_facets m nm vals = Inl e"
  by (cases vals) auto

lemma notify_Nil: "notify m ls [] = m"
  by (simp add: notify_def)

lemma save_widget_unsupported:
  "SUPPORT_WIDGET_TYPES (wtype (objs m w)) = None \<Longrightarrow>
     save_widget m w = (None, if show_warnings m then warn m w (prop_tag (objs m w)) else m)"
  by (simp add: save_widget_def widget_values_def widget_property_name_def Let_def notify_Nil)

lemma save_widget_mismatch:
  assumes "SUPPORT_WIDGET_TYPES (wtype (objs m w)) = Some info"
    and "\<forall>n. prop_tag (objs m w) = Some n \<longrightarrow> properties m n = None"
  shows "\<exists>e. save_widget m w = (Some e, m)"
proof -
  obtain res m1 where wv: "widget_values m w = (res, m1)" by (cases "widget_values m w")
  from widget_values_supported[OF assms(1)] wv
  have m1: "m1 = m" and ne: "\<forall>vals. res = Inr vals \<longrightarrow> vals \<noteq> []" by simp_all
  show ?thesis
  proof (cases res)
    case (Inl e)
    with wv m1 show ?thesis by (simp add: save_widget_def Let_def)
  next
    case (Inr vals)
    with ne have "vals \<noteq> []" by simp
    with lookup_property_mismatch[OF assms(2)]
    have "set_facets m (prop_tag (objs m w)) vals = Inl (KeyError (prop_tag (objs m w)))"
      by (rule set_facets_mismatch)
    with wv m1 Inr show ?thesis
      by (simp add: save_widget_def Let_def widget_property_name_def)
  qed
qed

lemma update_widget_mismatch:
  assumes "SUPPORT_WIDGET_TYPES (wtype (objs m w)) = Some info"
    and "\<forall>n. prop_tag (objs m w) = Some n \<longrightarrow> properties m n = None"
  shows "update_widget m w = (Some (KeyError (prop_tag (objs m w))), m)"
proof -
  from table_single_getset[OF assms(1)] obtain gs where gs: "getsets info = [gs]" by blast
  with assms(1) lookup_property_mismatch[OF assms(2)] show ?thesis
    by (simp add: update_widget_def Let_def widget_property_name_def)
qed

text \<open>
  Claim C3, as stated, says that a tracked widget whose tag is not a key of the registry
  is skipped by \<^verbatim>\<open>update_widget\<close> and \<^verbatim>\<open>save_properties\<close> with a warning and without
  an exception. This fails for a widget of a supported type: in \<open>ghost_model\<close> a line
  edit is tracked under \<open>ghost\<close>, which is not registered, and both functions raise
  \<^verbatim>\<open>KeyError\<close> at the subscription \<^verbatim>\<open>self.properties[...]\<close>.
\<close>

theorem tag_mismatch_raises:
  "0 \<in> set (widgets ghost_model) \<and> prop_tag (objs ghost_model 0) = Some ''ghost'' \<and>
   properties ghost_model ''ghost'' = None \<and>
   fst (update_widget ghost_model 0) = Some (KeyError (Some ''ghost'')) \<and>
   \<not> block_save ghost_model \<and>
   fst (save_properties ghost_model) = Some (KeyError (Some ''ghost''))"
  by (simp add: ghost_model_def example_defs update_widget_def lookup_property_def
      save_properties_def save_widget_def widget_values_def)

text \<open>
  Claim C3, amended. For a tracked widget whose tag matches no key of the registry: when
  the widget's type is not in the table, \<^verbatim>\<open>update_widget\<close> and the pass of
  \<^verbatim>\<open>save_properties\<close> over the widget (\<open>save_widget\<close>) return normally and change
  nothing but the log, which gets one warning when warnings are shown; when the type is
  in the table, \<^verbatim>\<open>update_widget\<close> raises \<^verbatim>\<open>KeyError\<close> for the tag and the pass of
  \<^verbatim>\<open>save_properties\<close> over the widget raises too, both leaving the state as it was.
\<close>

theorem tag_mismatch_behaviour:
  assumes "w \<in> set (widgets m)"
    and "\<forall>n. prop_tag (objs m w) = Some n \<longrightarrow> properties m n = None"
  shows "(SUPPORT_WIDGET_TYPES (wtype (objs m w)) = None \<longrightarrow>
            update_widget m w =
              (None, if show_warnings m then warn m w (prop_tag (objs m w)) else m) \<and>
            save_widget m w =
              (None, if show_warnings m then warn m w (prop_tag (objs m w)) else m)) \<and>
         (SUPPORT_WIDGET_TYPES (wtype (objs m w)) \<noteq> None \<longrightarrow>
            update_widget m w = (Some (KeyError (prop_tag (objs m w))), m) \<and>
            (\<exists>e. save_widget m w = (Some e, m)))"
proof (cases "SUPPORT_WIDGET_TYPES (wtype (objs m w))")
  case None
  then show ?thesis
    by (simp add: save_widget_unsupported update_widget_def Let_def widget_property_name_def)
next
  case (Some info)
  with update_widget_mismatch[OF Some assms(2)] save_widget_mismatch[OF Some assms(2)]
  show ?thesis by simp
qed

theorem tag_mismatch_behaviour_witness:
  "0 \<in> set (widgets ghost_model) \<and> properties ghost_model ''ghost'' = None \<and>
   update_widget ghost_model 0 = (Some (KeyError (Some ''ghost'')), ghost_model) \<and>
   (\<exists>e. save_widget ghost_model 0 = (Some e, ghost_model)) \<and>
   0 \<in> set (widgets ghost_plain_model) \<and> properties ghost_plain_model ''ghost'' = None \<and>
   update_widget ghost_plain_model 0 = (None, warn ghost_plain_model 0 (Some ''ghost'')) \<and>
   save_widget ghost_plain_model 0 = (None, warn ghost_plain_model 0 (Some ''ghost''))"
  using tag_mismatch_behaviour [of 0 ghost_model] tag_mismatch_behaviour [of 0 ghost_plain_model]
  by (simp add: ghost_model_fields)

subsection \<open>Suppression of the feedback\<close>

text \<open>
  Claim C4. \<^verbatim>\<open>save_properties\<close> does nothing while \<open>block_save\<close> is set: it
  returns the state as it is, so no record is written and no listener is called. In
  \<^verbatim>\<open>update_widgets_from_properties\<close> every setter call runs \<^verbatim>\<open>save_properties\<close>
  from inside (see \<open>call_setter\<close>), and still the property records and the trace of
  listener calls are the same after the call as before it, whether it returns or raises.
\<close>

theorem save_properties_blocked_no_feedback:
  "(block_save m \<longrightarrow> save_properties m = (None, m)) \<and>
   properties (snd (update_widgets_from_properties m)) = properties m \<and>
   calls (snd (update_widgets_from_properties m)) = calls m"
proof -
  obtain e m' where r: "update_widgets_from_properties m = (e, m')"
    by (cases "update_widgets_from_properties m")
  from update_widgets_from_properties_frame[OF r] show ?thesis
    using r by (simp add: same_engine_def save_properties_blocked)
qed

theorem save_properties_blocked_no_feedback_witness:
  "block_save (volume_model\<lparr>block_save := True\<rparr>) \<and>
   save_properties (volume_model\<lparr>block_save := True\<rparr>) =
     (None, volume_model\<lparr>block_save := True\<rparr>) \<and>
   properties (snd (update_widgets_from_properties (volume_model\<lparr>block_save := True\<rparr>))) =
     properties (volume_model\<lparr>block_save := True\<rparr>) \<and>
   calls (snd (update_widgets_from_properties (volume_model\<lparr>block_save := True\<rparr>))) =
     calls (volume_model\<lparr>block_save := True\<rparr>)"
  using save_properties_blocked_no_feedback [of "volume_model\<lparr>block_save := True\<rparr>"]
  by simp

text \<open>
  The block matters: called on its own, outside the block, \<^verbatim>\<open>update_widget\<close> lets the
  setter's signal run \<^verbatim>\<open>save_properties\<close>, which calls the listener.
\<close>

lemma update_widget_unguarded_feedback:
  "calls (snd (update_widget (listen volume_model ''volume'' 7) 0)) = [(7, PyInt 0)] \<and>
   calls (snd (update_widgets_from_properties (listen volume_model ''volume'' 7))) = []"
  by (simp add: volume_model_def example_defs update_widget_def listen_def lookup_property_def
      getattr_prop_def call_setter_def save_properties_def save_widget_def widget_values_def
      set_facets.simps put_property_def setattr_prop_def notify_def listeners_get_def
      update_widgets_from_properties_def)

subsection \<open>Updating a property\<close>

text \<open>
  Claim C6. For a registered name \<open>p\<close>, after \<^verbatim>\<open>update_property(p, v)\<close> the record
  under \<open>p\<close> has the value \<open>v\<close>, also when a setter raised on the way. For a name that
  is not registered the call returns at once: the state, which holds the trace of listener
  calls, is unchanged.
\<close>

theorem update_property_round_trip:
  "(properties m p \<noteq> None \<longrightarrow>
      (\<exists>r. properties (snd (update_property m p v)) p = Some r \<and> p_value r = v)) \<and>
   (properties m p = None \<longrightarrow> update_property m p v = (None, m))"
proof (cases "properties m p")
  case None
  then show ?thesis by (simp add: update_property_def)
next
  case (Some r0)
  let ?m1 = "m\<lparr>properties := (properties m)(p \<mapsto> r0\<lparr>p_value := v\<rparr>)\<rparr>"
  obtain e m2 where r: "update_widget_from_property ?m1 p = (e, m2)"
    by (cases "update_widget_from_property ?m1 p")
  from update_widget_from_property_frame[OF r]
  have "properties m2 = properties ?m1" by (simp add: same_engine_def)
  then have "properties (snd (update_property m p v)) p = Some (r0\<lparr>p_value := v\<rparr>)"
    using Some r by (cases e) (simp_all add: update_property_def Let_def call_listeners_def)
  with Some show ?thesis by simp
qed

theorem update_property_round_trip_witness:
  "properties volume_model ''volume'' \<noteq> None \<and>
   (\<exists>r. properties (snd (update_property volume_model ''volume'' (PyInt 7))) ''volume'' = Some r \<and>
        p_value r = PyInt 7) \<and>
   properties volume_model ''ghost'' = None \<and>
   update_property volume_model ''ghost'' (PyInt 7) = (None, volume_model)"
  using update_property_round_trip [of volume_model "''volume''" "PyInt 7"]
    update_property_round_trip [of volume_model "''ghost''" "PyInt 7"]
  by (simp add: volume_model_fields)

subsection \<open>Listeners and the refresh of the widgets\<close>

text \<open>
  \<^verbatim>\<open>update_property\<close> on a registered name returns normally exactly when no setter of a
  linked widget raises; it is enough that every linked widget of a supported type takes
  the value.
\<close>

lemma listeners_get_cong:
  "listeners m' = listeners m \<Longrightarrow> listeners_get m' k = listeners_get m k"
  by (cases k) (simp_all add: listeners_get_def)

lemma update_property_calls:
  assumes "properties m p = Some r" and "fst (update_property m p v) = None"
  shows "calls (snd (update_property m p v)) =
           calls m @ map (\<lambda>l. (l, v)) (listeners_get m (Some p))"
proof -
  let ?m1 = "m\<lparr>properties := (properties m)(p \<mapsto> r\<lparr>p_value := v\<rparr>)\<rparr>"
  obtain e m2 where u: "update_widget_from_property ?m1 p = (e, m2)"
    by (cases "update_widget_from_property ?m1 p")
  from assms u have e: "e = None"
    by (cases e) (simp_all add: update_property_def Let_def)
  from update_widget_from_property_frame[OF u]
  have c: "calls m2 = calls m" and l: "listeners m2 = listeners m"
    by (simp_all add: same_engine_def)
  from l have "listeners_get m2 (Some p) = listeners_get m (Some p)"
    by (rule listeners_get_cong)
  with assms(1) u e c show ?thesis
    by (simp add: update_property_def Let_def call_listeners_def)
qed

lemma widgets_linked_to_property_cong:
  "widgets m' = widgets m \<Longrightarrow> (\<forall>u. prop_tag (objs m' u) = prop_tag (objs m u)) \<Longrightarrow>
     widgets_linked_to_property m' p = widgets_linked_to_property m p"
  by (simp add: widgets_linked_to_property_def property_widgets_def)

lemma update_property_refreshes:
  assumes "properties m p = Some r" and "fst (update_property m p v) = None"
    and "w \<in> set (widgets_linked_to_property m p)"
    and "SUPPORT_WIDGET_TYPES (wtype (objs m w)) = Some info"
  shows "accessors (objs (snd (update_property m p v)) w) (getter (hd (getsets info))) = Some v"
proof -
  let ?m1 = "m\<lparr>properties := (properties m)(p \<mapsto> r\<lparr>p_value := v\<rparr>), block_save := True\<rparr>"
  let ?ws = "widgets_linked_to_property m p"
  have ws: "widgets_linked_to_property ?m1 p = ?ws"
    by (rule widgets_linked_to_property_cong) simp_all
  obtain e m2 where ul: "update_loop ?m1 ?ws = (e, m2)" by (cases "update_loop ?m1 ?ws")
  from assms(1,2) ul ws have e: "e = None"
    by (cases e) (simp_all add: update_property_def update_widget_from_property_def Let_def)
  have res: "snd (update_property m p v) =
      call_listeners ((unblock_signals m2 ?ws)\<lparr>block_save := False\<rparr>)
        (listeners_get ((unblock_signals m2 ?ws)\<lparr>block_save := False\<rparr>) (Some p)) v"
    using assms(1) ul ws e
    by (simp add: update_property_def update_widget_from_property_def Let_def)
  have tag: "prop_tag (objs ?m1 w) = Some p"
    using assms(3) by (auto simp: widgets_linked_to_property_def)
  have "accessors (objs m2 w) (getter (hd (getsets info))) = Some (p_value (r\<lparr>p_value := v\<rparr>))"
    using ul e assms(3,4) tag
    by (intro update_loop_sets[where m = ?m1 and ws = ?ws and p = p]) simp_all
  moreover have "accessors (objs (unblock_signals m2 ?ws) w) = accessors (objs m2 w)"
    using unblock_signals_frame[of m2 ?ws] by simp
  ultimately show ?thesis using res by (simp add: call_listeners_def)
qed

lemma update_widget_returns:
  assumes "block_save m" and "prop_tag (objs m w) = Some p" and "properties m p = Some r"
    and "\<forall>info gs. SUPPORT_WIDGET_TYPES (wtype (objs m w)) = Some info \<longrightarrow>
           gs \<in> set (getsets info) \<longrightarrow> accepts (objs m w) (setter gs) (p_value r)"
  shows "fst (update_widget m w) = None"
proof (cases "SUPPORT_WIDGET_TYPES (wtype (objs m w))")
  case None
  then show ?thesis by (simp add: update_widget_def Let_def)
next
  case (Some info)
  from table_single_getset[OF Some] obtain gs where gs: "getsets info = [gs]" by blast
  with assms(4) Some have "accepts (objs m w) (setter gs) (p_value r)" by simp
  with assms(1-3) Some gs show ?thesis
    by (simp add: update_widget_def Let_def widget_property_name_def lookup_property_def
        getattr_prop_def call_setter_blocked)
qed

lemma update_loop_returns:
  "block_save m \<Longrightarrow> properties m p = Some r \<Longrightarrow>
   (\<forall>w\<in>set ws. prop_tag (objs m w) = Some p \<and>
      (\<forall>info gs. SUPPORT_WIDGET_TYPES (wtype (objs m w)) = Some info \<longrightarrow>
         gs \<in> set (getsets info) \<longrightarrow> accepts (objs m w) (setter gs) (p_value r))) \<Longrightarrow>
   fst (update_loop m ws) = None"
proof (induction ws arbitrary: m)
  case Nil
  then show ?case by simp
next
  case (Cons x xs)
  obtain e1 m1 where uw: "update_widget m x = (e1, m1)" by (cases "update_widget m x")
  have "fst (update_widget m x) = None"
    using Cons.prems by (intro update_widget_returns[where p = p and r = r]) simp_all
  with uw have e1: "e1 = None" by simp
  from update_widget_frame[OF Cons.prems(1) uw] have f: "same_engine m m1" by simp
  have "fst (update_loop m1 xs) = None"
    using Cons.prems f by (intro Cons.IH) (simp_all add: same_engine_def)
  with uw e1 show ?case by simp
qed

lemma update_property_returns:
  assumes "properties m p = Some r0"
    and "\<forall>w\<in>set (widgets_linked_to_property m p). \<forall>info gs.
           SUPPORT_WIDGET_TYPES (wtype (objs m w)) = Some info \<longrightarrow>
           gs \<in> set (getsets info) \<longrightarrow> accepts (objs m w) (setter gs) v"
  shows "fst (update_property m p v) = None"
proof -
  let ?m1 = "m\<lparr>properties := (properties m)(p \<mapsto> r0\<lparr>p_value := v\<rparr>), block_save := True\<rparr>"
  let ?ws = "widgets_linked_to_property m p"
  have ws: "widgets_linked_to_property ?m1 p = ?ws"
    by (rule widgets_linked_to_property_cong) simp_all
  have "fst (update_loop ?m1 ?ws) = None"
    using assms(2)
    by (intro update_loop_returns[where p = p and r = "r0\<lparr>p_value := v\<rparr>"])
      (auto simp: widgets_linked_to_property_def)
  moreover obtain e m2 where "update_loop ?m1 ?ws = (e, m2)" by (cases "update_loop ?m1 ?ws")
  ultimately show ?thesis
    using assms(1) ws
    by (simp add: update_property_def update_widget_from_property_def Let_def)
qed

text \<open>
  Claim C7. \<^verbatim>\<open>listen\<close> appends the callback to the list kept for the name: the old
  listeners stay, in their order, nothing is removed when the callback is there already,
  and the lists of other names are untouched. When \<^verbatim>\<open>update_property(p, v)\<close> on a
  registered name returns, the listener calls it has added to the trace are the
  listeners of \<open>p\<close> in registration order, one call each, each with \<open>v\<close>. (When a
  setter raises, the error leaves \<^verbatim>\<open>update_property\<close> before the listeners are
  reached.)
\<close>

theorem listeners_appended_and_called_in_order:
  "listeners_get (listen m p l) (Some p) = listeners_get m (Some p) @ [l] \<and>
   (q \<noteq> p \<longrightarrow> listeners_get (listen m p l) (Some q) = listeners_get m (Some q)) \<and>
   (properties m p \<noteq> None \<and> fst (update_property m p v) = None \<longrightarrow>
      calls (snd (update_property m p v)) =
        calls m @ map (\<lambda>l. (l, v)) (listeners_get m (Some p)))"
proof -
  have "listeners_get (listen m p l) (Some p) = listeners_get m (Some p) @ [l]"
    by (simp add: listen_def listeners_get_def)
  moreover have "q \<noteq> p \<longrightarrow> listeners_get (listen m p l) (Some q) = listeners_get m (Some q)"
    by (simp add: listen_def listeners_get_def)
  moreover have "properties m p \<noteq> None \<and> fst (update_property m p v) = None \<longrightarrow>
      calls (snd (update_property m p v)) =
        calls m @ map (\<lambda>l. (l, v)) (listeners_get m (Some p))"
    using update_property_calls[of m p _ v] by auto
  ultimately show ?thesis by blast
qed

theorem listeners_appended_and_called_in_order_witness:
  "listeners_get (listen (listen volume_model ''volume'' 1) ''volume'' 2) (Some ''volume'') =
     listeners_get (listen volume_model ''volume'' 1) (Some ''volume'') @ [2] \<and>
   listeners_get listening_model (Some ''volume'') = [1, 2] \<and>
   properties listening_model ''volume'' \<noteq> None \<and>
   fst (update_property listening_model ''volume'' (PyInt 5)) = None \<and>
   calls (snd (update_property listening_model ''volume'' (PyInt 5))) =
     [(1, PyInt 5), (2, PyInt 5)]"
proof -
  have r: "fst (update_property listening_model ''volume'' (PyInt 5)) = None"
    by (rule update_property_returns[OF listening_model_fields(1)])
      (simp add: listening_model_fields)
  show ?thesis
    using listeners_appended_and_called_in_order [of "listen volume_model ''volume'' 1" "''volume''" 2]
      listeners_appended_and_called_in_order [of listening_model "''volume''" _ _ "PyInt 5"] r
    by (simp add: listening_model_fields)
qed

text \<open>
  Claim C9. \<^verbatim>\<open>update_property\<close> does not compare the new value with the old one. When
  the record under \<open>p\<close> already has the value \<open>v\<close> and \<^verbatim>\<open>update_property(p, v)\<close>
  returns, every listener of \<open>p\<close> has been called with \<open>v\<close>, in order, and every
  widget linked to \<open>p\<close> whose type is in the table has been written: the getter of its
  first accessor pair returns \<open>v\<close>, whatever it returned before.
\<close>

theorem update_property_no_change_detection:
  assumes "properties m p = Some r" and "p_value r = v"
    and "fst (update_property m p v) = None"
  shows "calls (snd (update_property m p v)) =
           calls m @ map (\<lambda>l. (l, v)) (listeners_get m (Some p)) \<and>
         (w \<in> set (widgets_linked_to_property m p) \<and>
          SUPPORT_WIDGET_TYPES (wtype (objs m w)) = Some info \<longrightarrow>
            accessors (objs (snd (update_property m p v)) w) (getter (hd (getsets info))) = Some v)"
  using update_property_calls[OF assms(1,3)] update_property_refreshes[OF assms(1,3)]
  by blast

theorem update_property_no_change_detection_witness:
  "properties listening_model ''volume'' = Some (UiProperty ''volume'' (PyInt 0) (PyInt 0) PyNone) \<and>
   p_value (UiProperty ''volume'' (PyInt 0) (PyInt 0) PyNone) = PyInt 0 \<and>
   fst (update_property listening_model ''volume'' (PyInt 0)) = None \<and>
   calls (snd (update_property listening_model ''volume'' (PyInt 0))) =
     [(1, PyInt 0), (2, PyInt 0)] \<and>
   accessors (objs listening_model 0) ''value'' = Some (PyInt 3) \<and>
   accessors (objs (snd (update_property listening_model ''volume'' (PyInt 0))) 0) ''value'' =
     Some (PyInt 0)"
proof -
  have r: "fst (update_property listening_model ''volume'' (PyInt 0)) = None"
    by (rule update_property_returns[OF listening_model_fields(1)])
      (simp add: listening_model_fields)
  have v: "p_value (UiProperty ''volume'' (PyInt 0) (PyInt 0) PyNone) = PyInt 0"
    by (simp add: UiProperty_def)
  have a: "accessors (objs listening_model 0) ''value'' = Some (PyInt 3)"
    by (simp add: listening_model_def listen_def volume_model_fields)
  show ?thesis
    using update_property_no_change_detection [OF listening_model_fields(1) v r, of 0
        "UiPropertyWidgetUpdate ''valueChanged'' [UiPropertyGetSet ''value'' ''setValue'']"] r v a
    by (simp add: listening_model_fields UiPropertyWidgetUpdate_def UiPropertyGetSet_def)
qed

subsection \<open>Registration of properties\<close>

lemma setup_loop_append: "setup_loop tp (xs @ ys) = setup_loop (setup_loop tp xs) ys"
  by (induction xs arbitrary: tp) auto

lemma setup_loop_other: "n \<notin> p_name ` set ps \<Longrightarrow> setup_loop tp ps n = tp n"
  by (induction ps arbitrary: tp) auto

lemma dom_setup_loop: "dom (setup_loop tp ps) = dom tp \<union> p_name ` set ps"
  by (induction ps arbitrary: tp) auto

text \<open>
  Claim C5. Let \<open>ps\<close> be the list \<^verbatim>\<open>setup_properties\<close> works on (its argument, or the
  result of \<^verbatim>\<open>initialize_properties\<close> when the argument is \<^verbatim>\<open>None\<close> or empty). The
  keys of the returned mapping are the names in \<open>ps\<close>. Under a name the mapping holds
  the last record of \<open>ps\<close> with that name, and the record's default is its value when
  its default was \<^verbatim>\<open>None\<close>, and is the default it came with otherwise; nothing else
  of the record changes.
\<close>

theorem setup_properties_defaults:
  assumes "ps = (case props of None \<Rightarrow> init | Some xs \<Rightarrow> if xs = [] then init else xs)"
  shows "dom (setup_properties init props) = p_name ` set ps \<and>
         (ps = xs @ p # ys \<and> p_name p \<notin> p_name ` set ys \<longrightarrow>
            setup_properties init props (p_name p) =
              Some (p\<lparr>p_default := if p_default p = PyNone then p_value p else p_default p\<rparr>))"
proof -
  have s: "setup_properties init props = setup_loop Map.empty ps"
    using assms by (simp add: setup_properties_def)
  have "dom (setup_properties init props) = p_name ` set ps"
    by (simp add: s dom_setup_loop)
  moreover have "setup_loop Map.empty (xs @ p # ys) (p_name p) =
      Some (p\<lparr>p_default := if p_default p = PyNone then p_value p else p_default p\<rparr>)"
    if "p_name p \<notin> p_name ` set ys"
    using that by (simp add: setup_loop_append setup_loop_other register_property_def)
  ultimately show ?thesis using s by auto
qed

theorem setup_properties_defaults_witness:
  "three_properties = (case Some three_properties of None \<Rightarrow> []
      | Some xs \<Rightarrow> if xs = [] then [] else xs) \<and>
   dom (setup_properties [] (Some three_properties)) = {''volume'', ''title''} \<and>
   setup_properties [] (Some three_properties) ''volume'' =
     Some (UiProperty ''volume'' (PyInt 5) (PyInt 5) PyNone) \<and>
   setup_properties [] (Some three_properties) ''title'' =
     Some (UiProperty ''title'' (PyStr ''a'') (PyStr ''b'') PyNone)"
proof -
  have e: "three_properties = (case Some three_properties of None \<Rightarrow> []
      | Some xs \<Rightarrow> if xs = [] then [] else xs)"
    by (simp add: three_properties_def)
  show ?thesis
    using setup_properties_defaults [OF e, of "[UiProperty ''volume'' (PyInt 0) PyNone PyNone,
          UiProperty ''title'' (PyStr ''a'') (PyStr ''b'') PyNone]"
        "UiProperty ''volume'' (PyInt 5) PyNone PyNone" "[]"]
      setup_properties_defaults [OF e, of "[UiProperty ''volume'' (PyInt 0) PyNone PyNone]"
        "UiProperty ''title'' (PyStr ''a'') (PyStr ''b'') PyNone"
        "[UiProperty ''volume'' (PyInt 5) PyNone PyNone]"]
    by (auto simp: three_properties_def UiProperty_def)
qed

subsection \<open>Saving the widgets' values\<close>

lemma read_getsets_distinct:
  "read_getsets wd i gss res = Inr vals \<Longrightarrow> distinct (map fst res) \<Longrightarrow> distinct (map fst vals)"
proof (induction gss arbitrary: i res)
  case Nil
  then show ?case by simp
next
  case (Cons gs rest)
  from Cons.prems(1) obtain x where x: "accessors wd (getter gs) = Some x"
    by (cases "accessors wd (getter gs)") (simp_all add: Let_def)
  with Cons.prems(1)
  have "read_getsets wd (Suc i) rest
          (AList.update (if i = 0 then ''value'' else getter gs) x res) = Inr vals"
    by (simp add: Let_def)
  then show ?case by (rule Cons.IH) (simp add: distinct_update Cons.prems(2))
qed

lemma read_extra_distinct:
  "read_extra wd d res = Inr vals \<Longrightarrow> distinct (map fst res) \<Longrightarrow> distinct (map fst vals)"
proof (induction d arbitrary: res)
  case Nil
  then show ?case by simp
next
  case (Cons a d)
  obtain k acc where a: "a = (k, acc)" by (cases a)
  from Cons.prems(1) a obtain x where x: "accessors wd acc = Some x"
    by (cases "accessors wd acc") simp_all
  with Cons.prems(1) a have "read_extra wd d (AList.update k x res) = Inr vals" by simp
  then show ?case by (rule Cons.IH) (simp add: distinct_update Cons.prems(2))
qed

lemma widget_values_distinct:
  assumes "fst (widget_values m w) = Inr vals"
  shows "distinct (map fst vals)"
proof (cases "SUPPORT_WIDGET_TYPES (wtype (objs m w))")
  case None
  with assms show ?thesis by (simp add: widget_values_def Let_def)
next
  case (Some info)
  show ?thesis
  proof (cases "read_getsets (objs m w) 0 (getsets info) []")
    case (Inl e)
    with assms Some show ?thesis by (simp add: widget_values_def Let_def)
  next
    case (Inr res)
    then have "distinct (map fst res)" by (rule read_getsets_distinct) simp
    with assms Some Inr show ?thesis
      by (auto simp: widget_values_def Let_def dest: read_extra_distinct)
  qed
qed

lemma widget_values_fst_cong:
  "objs m' w = objs m w \<Longrightarrow> fst (widget_values m' w) = fst (widget_values m w)"
  by (simp add: widget_values_def Let_def split: option.splits sum.splits)

lemma widget_values_snd:
  "same_registry m (snd (widget_values m w)) \<and>
   properties (snd (widget_values m w)) = properties m \<and>
   calls (snd (widget_values m w)) = calls m"
  by (simp add: widget_values_def Let_def same_registry_def warn_def
      split: option.splits sum.splits)

lemma same_registry_refl: "same_registry m m"
  by (simp add: same_registry_def)

lemma same_registry_trans: "same_registry a b \<Longrightarrow> same_registry b c \<Longrightarrow> same_registry a c"
  by (simp add: same_registry_def)

lemma notifications_cong: "same_registry m m' \<Longrightarrow> notifications m' w = notifications m w"
proof -
  assume s: "same_registry m m'"
  then have "fst (widget_values m' w) = fst (widget_values m w)"
    by (intro widget_values_fst_cong) (simp add: same_registry_def)
  moreover from s have "listeners_get m' (widget_property_name m' w) =
      listeners_get m (widget_property_name m w)"
    using listeners_get_cong[of m' m "prop_tag (objs m w)"]
    by (simp add: same_registry_def widget_property_name_def)
  ultimately show ?thesis
    by (simp add: notifications_def facet_map_def cong: option.case_cong)
qed

lemma facet_map_cong: "same_registry m m' \<Longrightarrow> facet_map m' w = facet_map m w"
  using widget_values_fst_cong[of m' w m] by (simp add: facet_map_def same_registry_def)

lemma getattr_setattr_same: "getattr_prop (setattr_prop k v r) k = Some v"
  by (simp add: getattr_prop_def setattr_prop_def)

lemma getattr_setattr_other: "k' \<noteq> k \<Longrightarrow> getattr_prop (setattr_prop k v r) k' = getattr_prop r k'"
  unfolding getattr_prop_def setattr_prop_def
  by (cases "k = ''value''"; cases "k = ''default''"; cases "k = ''type''";
      simp split: option.splits)

lemma set_facets_frame:
  "set_facets m nm vals = Inr m2 \<Longrightarrow>
     same_registry m m2 \<and> calls m2 = calls m \<and>
     (\<forall>q. Some q \<noteq> nm \<longrightarrow> properties m2 q = properties m q)"
proof (induction vals arbitrary: m)
  case Nil
  then show ?case by (simp add: same_registry_refl)
next
  case (Cons a rest)
  obtain k v where a: "a = (k, v)" by (cases a)
  from Cons.prems a obtain p where p: "lookup_property m nm = Inr p"
    by (cases "lookup_property m nm") simp_all
  let ?m1 = "put_property m nm (setattr_prop k v p)"
  from Cons.prems a p have rest: "set_facets ?m1 nm rest = Inr m2" by simp
  have "same_registry m ?m1 \<and> calls ?m1 = calls m \<and>
        (\<forall>q. Some q \<noteq> nm \<longrightarrow> properties ?m1 q = properties m q)"
    by (cases nm) (auto simp: put_property_def same_registry_def)
  with Cons.IH[OF rest] show ?case by (auto intro: same_registry_trans)
qed

lemma set_facets_keeps:
  "set_facets m (Some q) vals = Inr m2 \<Longrightarrow> properties m q = Some r \<Longrightarrow>
   k \<notin> fst ` set vals \<Longrightarrow>
     \<exists>r2. properties m2 q = Some r2 \<and> getattr_prop r2 k = getattr_prop r k"
proof (induction vals arbitrary: m r)
  case Nil
  then show ?case by simp
next
  case (Cons a rest)
  obtain k0 v0 where a: "a = (k0, v0)" by (cases a)
  let ?m1 = "put_property m (Some q) (setattr_prop k0 v0 r)"
  from Cons.prems a have rest: "set_facets ?m1 (Some q) rest = Inr m2"
    by (simp add: lookup_property_def)
  have p1: "properties ?m1 q = Some (setattr_prop k0 v0 r)" by (simp add: put_property_def)
  from Cons.prems(3) a have "k \<noteq> k0" and "k \<notin> fst ` set rest" by auto
  with Cons.IH[OF rest p1] show ?case by (auto simp: getattr_setattr_other)
qed

lemma set_facets_getattr:
  "set_facets m (Some q) vals = Inr m2 \<Longrightarrow> distinct (map fst vals) \<Longrightarrow> (k, v) \<in> set vals \<Longrightarrow>
     \<exists>r. properties m2 q = Some r \<and> getattr_prop r k = Some v"
proof (induction vals arbitrary: m)
  case Nil
  then show ?case by simp
next
  case (Cons a rest)
  obtain k0 v0 where a: "a = (k0, v0)" by (cases a)
  from Cons.prems(1) a obtain p where p: "properties m q = Some p"
    by (cases "properties m q") (simp_all add: lookup_property_def)
  let ?m1 = "put_property m (Some q) (setattr_prop k0 v0 p)"
  from Cons.prems(1) a p have rest: "set_facets ?m1 (Some q) rest = Inr m2"
    by (simp add: lookup_property_def)
  show ?case
  proof (cases "(k, v) \<in> set rest")
    case True
    from Cons.prems(2) have "distinct (map fst rest)" by simp
    from Cons.IH[OF rest this True] show ?thesis .
  next
    case False
    with Cons.prems(3) a have kv: "k = k0" "v = v0" by auto
    from Cons.prems(2) a have "k0 \<notin> fst ` set rest" by auto
    moreover have "properties ?m1 q = Some (setattr_prop k0 v0 p)"
      by (simp add: put_property_def)
    ultimately show ?thesis
      using set_facets_keeps[OF rest, of "setattr_prop k0 v0 p" k0] kv
      by (simp add: getattr_setattr_same)
  qed
qed

lemma filter_key_absent:
  "key \<notin> fst ` set vals \<Longrightarrow> filter (\<lambda>(k, v). k = key) vals = []"
  by (induction vals) auto

lemma filter_key_distinct:
  "distinct (map fst vals) \<Longrightarrow>
     map (\<lambda>(k, v). (l, v)) (filter (\<lambda>(k, v). k = key) vals) =
       (case map_of vals key of None \<Rightarrow> [] | Some v \<Rightarrow> [(l, v)])"
  by (induction vals) (auto simp: filter_key_absent)

lemma calls_notify:
  assumes "distinct (map fst vals)"
  shows "calls (notify m ls vals) =
           calls m @ (case map_of vals ''value'' of
                        None \<Rightarrow> []
                      | Some v \<Rightarrow> map (\<lambda>listener. (listener, v)) ls)"
proof -
  have "concat (map (\<lambda>listener.
            map (\<lambda>(k, v). (listener, v)) (filter (\<lambda>(k, v). k = ''value'') vals)) ls) =
        (case map_of vals ''value'' of
           None \<Rightarrow> [] | Some v \<Rightarrow> map (\<lambda>listener. (listener, v)) ls)"
    by (cases "map_of vals ''value''") (simp_all add: filter_key_distinct[OF assms])
  then show ?thesis by (simp add: notify_def)
qed

lemma notify_frame:
  "same_registry m (notify m ls vals) \<and> properties (notify m ls vals) = properties m"
  by (simp add: notify_def same_registry_def)

lemma save_widget_ok:
  assumes "save_widget m w = (None, m')"
  shows "same_registry m m' \<and> calls m' = calls m @ notifications m w \<and>
         (\<forall>q. Some q \<noteq> prop_tag (objs m w) \<longrightarrow> properties m' q = properties m q) \<and>
         (\<forall>q k v. prop_tag (objs m w) = Some q \<longrightarrow> (k, v) \<in> set (facet_map m w) \<longrightarrow>
            (\<exists>r. properties m' q = Some r \<and> getattr_prop r k = Some v))"
proof -
  let ?nm = "prop_tag (objs m w)"
  obtain res m1 where wv: "widget_values m w = (res, m1)" by (cases "widget_values m w")
  from assms wv obtain vals where res: "res = Inr vals"
    by (cases res) (simp_all add: save_widget_def Let_def)
  from assms wv res obtain m2 where sf: "set_facets m1 ?nm vals = Inr m2"
    by (cases "set_facets m1 ?nm vals")
      (simp_all add: save_widget_def Let_def widget_property_name_def)
  from assms wv res sf have m': "m' = notify m2 (listeners_get m2 ?nm) vals"
    by (simp add: save_widget_def Let_def widget_property_name_def)
  from widget_values_snd[of m w] wv
  have f1: "same_registry m m1" "properties m1 = properties m" "calls m1 = calls m" by simp_all
  from set_facets_frame[OF sf]
  have f2: "same_registry m1 m2" "calls m2 = calls m1"
    "\<forall>q. Some q \<noteq> ?nm \<longrightarrow> properties m2 q = properties m1 q" by simp_all
  from wv res have fm: "facet_map m w = vals" by (simp add: facet_map_def)
  from wv res have d: "distinct (map fst vals)" by (intro widget_values_distinct[of m w]) simp
  have s12: "same_registry m m2" using f1(1) f2(1) by (rule same_registry_trans)
  then have lg: "listeners_get m2 ?nm = listeners_get m ?nm"
    by (intro listeners_get_cong) (simp add: same_registry_def)
  have a: "same_registry m m'"
    using s12 notify_frame[of m2 "listeners_get m2 ?nm" vals] m'
    by (auto intro: same_registry_trans)
  have b: "calls m' = calls m @ notifications m w"
    using m' calls_notify[OF d, of m2 "listeners_get m2 ?nm"] f1(3) f2(2) lg fm
    by (simp add: notifications_def widget_property_name_def cong: option.case_cong)
  have pm': "properties m' = properties m2"
    using m' notify_frame[of m2 "listeners_get m2 ?nm" vals] by simp
  have c: "\<forall>q. Some q \<noteq> ?nm \<longrightarrow> properties m' q = properties m q"
    using pm' f2(3) f1(2) by simp
  have e: "\<exists>r. properties m' q = Some r \<and> getattr_prop r k = Some v"
    if "?nm = Some q" and "(k, v) \<in> set (facet_map m w)" for q k v
    using set_facets_getattr[of m1 q vals m2 k v] sf that d fm pm' by simp
  from a b c e show ?thesis by blast
qed

lemma save_loop_ok:
  "save_loop m ws = (None, m') \<Longrightarrow>
     same_registry m m' \<and> calls m' = calls m @ concat (map (notifications m) ws)"
proof (induction ws arbitrary: m)
  case Nil
  then show ?case by (simp add: same_registry_refl)
next
  case (Cons w ws)
  obtain e1 m1 where sw: "save_widget m w = (e1, m1)" by (cases "save_widget m w")
  with Cons.prems have e1: "e1 = None" and rest: "save_loop m1 ws = (None, m')"
    by (cases e1; simp)+
  from save_widget_ok[of m w m1] sw e1
  have f: "same_registry m m1" "calls m1 = calls m @ notifications m w" by simp_all
  from f(1) have "map (notifications m1) ws = map (notifications m) ws"
    by (simp add: notifications_cong)
  with Cons.IH[OF rest] f show ?case by (auto intro: same_registry_trans)
qed

lemma save_loop_other:
  "save_loop m ws = (None, m') \<Longrightarrow> \<forall>u\<in>set ws. prop_tag (objs m u) \<noteq> Some p \<Longrightarrow>
     properties m' p = properties m p"
proof (induction ws arbitrary: m)
  case Nil
  then show ?case by simp
next
  case (Cons w ws)
  obtain e1 m1 where sw: "save_widget m w = (e1, m1)" by (cases "save_widget m w")
  with Cons.prems(1) have e1: "e1 = None" and rest: "save_loop m1 ws = (None, m')"
    by (cases e1; simp)+
  from save_widget_ok[of m w m1] sw e1
  have f: "same_registry m m1"
    "\<forall>q. Some q \<noteq> prop_tag (objs m w) \<longrightarrow> properties m1 q = properties m q" by simp_all
  from Cons.prems(2) have "Some p \<noteq> prop_tag (objs m w)" by auto
  with f(2) have p1: "properties m1 p = properties m p" by simp
  from f(1) Cons.prems(2) have "\<forall>u\<in>set ws. prop_tag (objs m1 u) \<noteq> Some p"
    by (simp add: same_registry_def)
  from Cons.IH[OF rest this] p1 show ?case by simp
qed

lemma save_loop_append:
  "save_loop m (xs @ ys) =
     (case save_loop m xs of (Some e, m1) \<Rightarrow> (Some e, m1) | (None, m1) \<Rightarrow> save_loop m1 ys)"
  by (induction xs arbitrary: m) (auto split: prod.splits option.splits)

lemma save_loop_last:
  assumes "save_loop m (pre @ w # post) = (None, m')"
    and "prop_tag (objs m w) = Some p"
    and "\<forall>u\<in>set post. prop_tag (objs m u) \<noteq> Some p"
    and "(k, v) \<in> set (facet_map m w)"
  shows "\<exists>r. properties m' p = Some r \<and> getattr_prop r k = Some v"
proof -
  obtain e1 m1 where l1: "save_loop m pre = (e1, m1)" by (cases "save_loop m pre")
  with assms(1) have e1: "e1 = None" and r1: "save_loop m1 (w # post) = (None, m')"
    by (cases e1; simp add: save_loop_append)+
  obtain e2 m2 where sw: "save_widget m1 w = (e2, m2)" by (cases "save_widget m1 w")
  with r1 have e2: "e2 = None" and r2: "save_loop m2 post = (None, m')"
    by (cases e2; simp)+
  from save_loop_ok[of m pre m1] l1 e1 have s1: "same_registry m m1" by simp
  from save_widget_ok[of m1 w m2] sw e2
  have s2: "same_registry m1 m2"
    and g: "\<forall>q k v. prop_tag (objs m1 w) = Some q \<longrightarrow> (k, v) \<in> set (facet_map m1 w) \<longrightarrow>
            (\<exists>r. properties m2 q = Some r \<and> getattr_prop r k = Some v)" by simp_all
  from s1 assms(2) have t1: "prop_tag (objs m1 w) = Some p" by (simp add: same_registry_def)
  from s1 assms(4) have "(k, v) \<in> set (facet_map m1 w)" by (simp add: facet_map_cong)
  with g t1 obtain r where r: "properties m2 p = Some r" "getattr_prop r k = Some v" by blast
  from s1 s2 have "same_registry m m2" by (rule same_registry_trans)
  with assms(3) have "\<forall>u\<in>set post. prop_tag (objs m2 u) \<noteq> Some p"
    by (simp add: same_registry_def)
  from save_loop_other[OF r2 this] r show ?thesis by simp
qed

lemma two_bars_model_fields:
  "widgets two_bars_model = [0, 1]"
  "block_save two_bars_model = False"
  "calls two_bars_model = []"
  "prop_tag (objs two_bars_model 0) = Some ''volume''"
  "prop_tag (objs two_bars_model 1) = Some ''volume''"
  "facet_map two_bars_model 0 = [(''value'', PyInt 3)]"
  "facet_map two_bars_model 1 = [(''value'', PyInt 8)]"
  "notifications two_bars_model 0 = [(1, PyInt 3)]"
  "notifications two_bars_model 1 = [(1, PyInt 8)]"
  by (simp_all add: two_bars_model_def example_defs listen_def facet_map_def notifications_def
      widget_values_def listeners_get_def)

lemma two_bars_model_saves: "fst (save_properties two_bars_model) = None"
  by (simp add: two_bars_model_def example_defs listen_def save_properties_def save_widget_def
      widget_values_def lookup_property_def put_property_def notify_def setattr_prop_def
      listeners_get_def)

text \<open>
  Claim C10. Let \<^verbatim>\<open>save_properties\<close> run with \<open>block_save\<close> false and return. The
  widgets are processed in registry order: the listener calls added to the trace are the
  notifications of the first widget, then those of the second, and so on, so a listener
  of a property is called once for every widget linked to the property whose facet map
  has the key \<open>value\<close>, and not once per call of \<^verbatim>\<open>save_properties\<close>. For the last
  widget of the registry that is linked to a property \<open>p\<close>, every facet read from that
  widget is what the record under \<open>p\<close> holds under the facet's name at the end.
\<close>

theorem save_properties_registry_order:
  assumes "\<not> block_save m" and "fst (save_properties m) = None"
  shows "calls (snd (save_properties m)) = calls m @ concat (map (notifications m) (widgets m)) \<and>
         (widgets m = pre @ w # post \<and> prop_tag (objs m w) = Some p \<and>
          (\<forall>u\<in>set post. prop_tag (objs m u) \<noteq> Some p) \<and> (k, v) \<in> set (facet_map m w) \<longrightarrow>
            (\<exists>r. properties (snd (save_properties m)) p = Some r \<and> getattr_prop r k = Some v))"
proof -
  obtain e m' where sl: "save_loop m (widgets m) = (e, m')" by (cases "save_loop m (widgets m)")
  with assms have e: "e = None" and sp: "snd (save_properties m) = m'"
    by (simp_all add: save_properties_def property_widgets_def)
  from save_loop_ok[of m "widgets m" m'] sl e
  have "calls m' = calls m @ concat (map (notifications m) (widgets m))" by simp
  moreover have "\<exists>r. properties m' p = Some r \<and> getattr_prop r k = Some v"
    if "widgets m = pre @ w # post" "prop_tag (objs m w) = Some p"
      "\<forall>u\<in>set post. prop_tag (objs m u) \<noteq> Some p" "(k, v) \<in> set (facet_map m w)"
    using save_loop_last[of m pre w post m' p k v] sl e that by simp
  ultimately show ?thesis using sp by auto
qed

theorem save_properties_registry_order_witness:
  "\<not> block_save two_bars_model \<and> fst (save_properties two_bars_model) = None \<and>
   widgets two_bars_model = [0] @ 1 # [] \<and>
   calls (snd (save_properties two_bars_model)) = [(1, PyInt 3), (1, PyInt 8)] \<and>
   (\<exists>r. properties (snd (save_properties two_bars_model)) ''volume'' = Some r \<and>
        getattr_prop r ''value'' = Some (PyInt 8))"
proof -
  have b: "\<not> block_save two_bars_model" by (simp add: two_bars_model_fields)
  show ?thesis
    using save_properties_registry_order [OF b two_bars_model_saves, of "[0]" 1 "[]" "''volume''" "''value''" "PyInt 8"]
      two_bars_model_saves
    by (simp add: two_bars_model_fields[simplified])
qed

subsection \<open>The discovery walk\<close>

lemma iterate_linkable_properties_child_twice:
  "iterate_linkable_properties (QObject attrs (QObject cattrs gs # cs)) =
     linkable attrs @ linkable cattrs @ linkable cattrs @
     concat (map (\<lambda>g. linkable (own_attrs g) @ iterate_linkable_properties g) gs) @
     concat (map (\<lambda>c. linkable (own_attrs c) @ iterate_linkable_properties c) cs)"
  by simp

text \<open>
  Claim C8. The walk should yield every linkable attribute of the tree exactly once. It
  yields the attributes of an object that is not the root twice: once in the loop over
  the child's \<^verbatim>\<open>__dict__\<close> and once more at the start of the recursive call on that
  child (\<open>iterate_linkable_properties_child_twice\<close>). For a window whose only child
  holds one check box the result has the check box two times.
\<close>

theorem iterate_linkable_properties_yields_twice:
  "iterate_linkable_properties window_tree =
     [(''check'', (1, QCheckBox)), (''check'', (1, QCheckBox))]"
  by (simp add: window_tree_def linkable_def)

end
